theory Spec2Isabelle
  imports Main "HOL-Library.Multiset"
begin

text \<open>
  A shallow embedding of the syllogism quiz generators of implications-trainer: the
  single-answer generator of QuizGenerator.ts and api/quiz.ts and the multi-answer
  generator of api/multi-quiz.ts, with the random source made explicit as a stream of
  draws. The template library and the localisation files are parameters.
\<close>

section \<open>Data model\<close>

text \<open>
  The quantifier kinds and the three symbolic variables of the quiz templates
  (\<^verbatim>\<open>QuantifierType\<close> and the \<^verbatim>\<open>"X" | "Y" | "Z"\<close> union of the TypeScript sources).
\<close>

datatype QuantifierType = all | none | some | some_none | unknown

datatype Var = X | Y | Z

text \<open>
  \<^verbatim>\<open>Statement\<close> and \<^verbatim>\<open>Conclusion\<close> have the same three fields; a statement is a
  conclusion whose declared type excludes \<^verbatim>\<open>"unknown"\<close>. The source copies the fields
  of statements into conclusions, so one record serves both.
\<close>

record Conclusion =
  type :: QuantifierType
  subject :: Var
  object :: Var

type_synonym Statement = Conclusion

record QuizItem =
  statements :: "Statement list"
  correct :: "Conclusion list"

definition allTypes :: "QuantifierType list" where
  "allTypes = [all, none, some, some_none, unknown]"

section \<open>Triple keys and the insertion-ordered map\<close>

text \<open>
  The source identifies a triple by the template literal
  \<^verbatim>\<open>`${c.type}:${c.subject}->${c.object}`\<close>.
\<close>

fun typeStr :: "QuantifierType \<Rightarrow> string" where
  "typeStr all = ''all''"
| "typeStr none = ''none''"
| "typeStr some = ''some''"
| "typeStr some_none = ''some_none''"
| "typeStr unknown = ''unknown''"

fun varStr :: "Var \<Rightarrow> string" where
  "varStr X = ''X''"
| "varStr Y = ''Y''"
| "varStr Z = ''Z''"

definition key :: "Conclusion \<Rightarrow> string" where
  "key c = typeStr (type c) @ '':'' @ varStr (subject c) @ ''->'' @ varStr (object c)"

text \<open>
  A JavaScript \<^verbatim>\<open>Map\<close> keeps its entries in insertion order; \<^verbatim>\<open>set\<close> on a key
  that is present replaces the value in place, on a new key it appends the entry.
\<close>

fun map_set :: "(string \<times> 'v) list \<Rightarrow> string \<Rightarrow> 'v \<Rightarrow> (string \<times> 'v) list" where
  "map_set [] k v = [(k, v)]"
| "map_set ((k', v') # m) k v =
     (if k' = k then (k, v) # m else (k', v') # map_set m k v)"

definition map_values :: "(string \<times> 'v) list \<Rightarrow> 'v list" where
  "map_values m = map snd m"

section \<open>The entailment expansion (multi-quiz.ts, expandCorrectAnswers and isValid)\<close>

text \<open>
  The body of the loop over the premises: three independent \<^verbatim>\<open>if\<close> statements,
  each pushing onto \<^verbatim>\<open>derived\<close>.
\<close>

definition derive :: "Statement \<Rightarrow> Conclusion list" where
  "derive stmt =
     (if type stmt = all
      then [\<lparr>type = some, subject = subject stmt, object = object stmt\<rparr>,
            \<lparr>type = some, subject = object stmt, object = subject stmt\<rparr>]
      else []) @
     (if type stmt = some
      then [\<lparr>type = some, subject = object stmt, object = subject stmt\<rparr>]
      else []) @
     (if type stmt = none
      then [\<lparr>type = none, subject = object stmt, object = subject stmt\<rparr>]
      else [])"

definition derived :: "QuizItem \<Rightarrow> Conclusion list" where
  "derived item = correct item @ concat (map derive (statements item))"

definition unique :: "Conclusion list \<Rightarrow> (string \<times> Conclusion) list" where
  "unique cs = fold (\<lambda>c m. map_set m (key c) c) cs []"

definition expandCorrectAnswers :: "QuizItem \<Rightarrow> Conclusion list" where
  "expandCorrectAnswers item = map_values (unique (derived item))"

definition isValid :: "QuizItem \<Rightarrow> bool" where
  "isValid item =
     (let expanded = expandCorrectAnswers item
      in length expanded > 0 \<and> \<not> list_all (\<lambda>c. type c = unknown) expanded)"

section \<open>Randomness, shuffling and random picks\<close>

text \<open>
  The source draws from \<^verbatim>\<open>Math.random()\<close>, a number in the half-open unit interval,
  and only ever uses it as \<^verbatim>\<open>Math.floor(Math.random() * n)\<close>: an index below \<open>n\<close>
  when \<open>n\<close> is positive and \<open>0\<close> when \<open>n\<close> is \<open>0\<close>. A random stream is the sequence of
  these draws; the \<open>p\<close>-th call yields the \<open>p\<close>-th entry reduced below \<open>n\<close>, so every
  index below \<open>n\<close> can come out of every call. The position in the stream is passed
  through the code explicitly.
\<close>

type_synonym random = "nat \<Rightarrow> nat"

definition randomIndex :: "random \<Rightarrow> nat \<Rightarrow> nat \<Rightarrow> nat" where
  "randomIndex rnd p n = (if n = 0 then 0 else rnd p mod n)"

text \<open>Reading an array element; out of range JavaScript yields \<^verbatim>\<open>undefined\<close> (\<open>None\<close>).\<close>

definition at :: "'a list \<Rightarrow> nat \<Rightarrow> 'a option" where
  "at arr i = (if i < length arr then Some (arr ! i) else None)"

text \<open>
  The Fisher-Yates loop \<^verbatim>\<open>for (let i = length - 1; i > 0; i--)\<close> with the swap
  \<^verbatim>\<open>[a[i], a[j]] = [a[j], a[i]]\<close>. The first argument is the loop variable.
\<close>

fun shuffle_loop :: "random \<Rightarrow> nat \<Rightarrow> nat \<Rightarrow> 'a list \<Rightarrow> 'a list \<times> nat" where
  "shuffle_loop rnd 0 p a = (a, p)"
| "shuffle_loop rnd (Suc i) p a =
     (let j = randomIndex rnd p (Suc i + 1)
      in shuffle_loop rnd i (Suc p) (a[Suc i := a ! j, j := a ! Suc i]))"

text \<open>
  \<^verbatim>\<open>shuffle\<close> of quiz.ts and multi-quiz.ts works on a copy: the result is the returned
  array, the argument is left as it was. (For the empty array the loop starts at \<open>-1\<close>
  and does nothing, as it does from \<open>0\<close>.)
\<close>

definition shuffle :: "random \<Rightarrow> nat \<Rightarrow> 'a list \<Rightarrow> 'a list \<times> nat" where
  "shuffle rnd p array = shuffle_loop rnd (length array - 1) p array"

text \<open>
  \<^verbatim>\<open>shuffle\<close> of QuizGenerator.ts works in place: the result is the new content of the
  argument array, which is also what is returned.
\<close>

definition shuffle_inplace :: "random \<Rightarrow> nat \<Rightarrow> 'a list \<Rightarrow> 'a list \<times> nat" where
  "shuffle_inplace rnd p array = shuffle_loop rnd (length array - 1) p array"

definition getRandomElement :: "random \<Rightarrow> nat \<Rightarrow> 'a list \<Rightarrow> 'a option \<times> nat" where
  "getRandomElement rnd p arr = (at arr (randomIndex rnd p (length arr)), Suc p)"

section \<open>Localisation data and sentence rendering\<close>

text \<open>
  \<^verbatim>\<open>String.prototype.replace\<close> with a string pattern replaces the first occurrence
  only; in the replacement text \<^verbatim>\<open>$$\<close>, \<^verbatim>\<open>$&\<close>, \<^verbatim>\<open>$`\<close> and \<^verbatim>\<open>$'\<close> stand for a dollar sign,
  the match, the text before it and the text after it.
\<close>

fun getSubstitution :: "string \<Rightarrow> string \<Rightarrow> string \<Rightarrow> string \<Rightarrow> string" where
  "getSubstitution matched front rest [] = []"
| "getSubstitution matched front rest [c] = [c]"
| "getSubstitution matched front rest (c # d # r) =
     (if c = CHR ''$'' \<and> d = CHR ''$'' then CHR ''$'' # getSubstitution matched front rest r
      else if c = CHR ''$'' \<and> d = CHR ''&'' then matched @ getSubstitution matched front rest r
      else if c = CHR ''$'' \<and> d = CHR 0x60 then front @ getSubstitution matched front rest r
      else if c = CHR ''$'' \<and> d = CHR 0x27 then rest @ getSubstitution matched front rest r
      else c # getSubstitution matched front rest (d # r))"

fun replace_from :: "string \<Rightarrow> string \<Rightarrow> string \<Rightarrow> string \<Rightarrow> string" where
  "replace_from front s pat repl =
     (if take (length pat) s = pat
      then front @ getSubstitution pat front (drop (length pat) s) repl @ drop (length pat) s
      else (case s of [] \<Rightarrow> front | c # s' \<Rightarrow> replace_from (front @ [c]) s' pat repl))"

definition replace :: "string \<Rightarrow> string \<Rightarrow> string \<Rightarrow> string" where
  "replace s pat repl = replace_from [] s pat repl"

text \<open>A replacement value that is \<^verbatim>\<open>undefined\<close> is converted to the text "undefined".\<close>

definition toString :: "string option \<Rightarrow> string" where
  "toString v = (case v of None \<Rightarrow> ''undefined'' | Some s \<Rightarrow> s)"

text \<open>
  The files de.json and en.json and the template library quiz-templates.json are data
  outside the sources at hand; they are parameters of the model. \<open>terms_json\<close> is the
  vocabulary, \<open>templates_json\<close> the sentence pattern of each quantifier kind.
\<close>

record I18n =
  terms_json :: "string list"
  templates_json :: "QuantifierType \<Rightarrow> string"

record Modules =
  quizData :: "QuizItem list"
  de_json :: I18n
  en_json :: I18n

datatype Lang = de | en

definition termsMap :: "Modules \<Rightarrow> Lang \<Rightarrow> string list" where
  "termsMap M lang = (case lang of de \<Rightarrow> terms_json (de_json M) | en \<Rightarrow> terms_json (en_json M))"

definition templates :: "Modules \<Rightarrow> Lang \<Rightarrow> QuantifierType \<Rightarrow> string" where
  "templates M lang =
     (case lang of de \<Rightarrow> templates_json (de_json M) | en \<Rightarrow> templates_json (en_json M))"

text \<open>\<^verbatim>\<open>termMap\<close> and \<^verbatim>\<open>mapVarsToTerms\<close>: the first three entries of \<open>terms\<close>.\<close>

definition mapVarsToTerms :: "string list \<Rightarrow> Var \<Rightarrow> string option" where
  "mapVarsToTerms terms v = (case v of X \<Rightarrow> at terms 0 | Y \<Rightarrow> at terms 1 | Z \<Rightarrow> at terms 2)"

text \<open>\<^verbatim>\<open>t[type].replace("{sub}", subj).replace("{obj}", obj)\<close>\<close>

definition fill :: "(QuantifierType \<Rightarrow> string) \<Rightarrow> QuantifierType \<Rightarrow> string option \<Rightarrow> string option \<Rightarrow> string" where
  "fill t ty subj obj = replace (replace (t ty) ''{sub}'' (toString subj)) ''{obj}'' (toString obj)"

definition render :: "(QuantifierType \<Rightarrow> string) \<Rightarrow> string list \<Rightarrow> Conclusion \<Rightarrow> string" where
  "render t terms c =
     fill t (type c) (mapVarsToTerms terms (subject c)) (mapVarsToTerms terms (object c))"

section \<open>Single-answer mode (QuizGenerator.ts and api/quiz.ts, generateQuiz)\<close>

record Answer =
  sentence :: string
  isCorrect :: bool

record 'a Quiz =
  baseSentences :: "string list"
  answers :: "'a list"

text \<open>Reading a property of \<^verbatim>\<open>undefined\<close> throws a \<^verbatim>\<open>TypeError\<close>.\<close>

datatype error = TypeError

text \<open>
  Lines 71 to 91 of QuizGenerator.ts, the same in both files but for the shuffle: the
  five typed answers on the pair of the chosen conclusion, the unknown answer taken out,
  the others shuffled, the unknown answer appended.
\<close>

definition typedAnswers ::
  "(QuantifierType \<Rightarrow> string) \<Rightarrow> string list \<Rightarrow> Conclusion \<Rightarrow> (QuantifierType \<times> Answer) list" where
  "typedAnswers t terms correct' =
     (let subj = mapVarsToTerms terms (subject correct');
          obj = mapVarsToTerms terms (object correct')
      in map (\<lambda>ty. (ty, \<lparr>sentence = fill t ty subj obj, isCorrect = (ty = type correct')\<rparr>))
           allTypes)"

definition generateQuiz_component :: "Modules \<Rightarrow> Lang \<Rightarrow> random \<Rightarrow> nat \<Rightarrow> error + Answer Quiz" where
  "generateQuiz_component M lang rnd p0 =
     (let (item, p1) = getRandomElement rnd p0 (quizData M);
          t = templates M lang;
          terms = termsMap M lang;
          (terms, p2) = shuffle_inplace rnd p1 terms
      in case item of
           None \<Rightarrow> Inl TypeError
         | Some item \<Rightarrow>
            (let baseSentences' = map (render t terms) (statements item);
                 (correct', p3) = getRandomElement rnd p2 (correct item)
             in case correct' of
                  None \<Rightarrow> Inl TypeError
                | Some correct' \<Rightarrow>
                   (let answers' = typedAnswers t terms correct';
                        unknownAnswer = find (\<lambda>a. fst a = unknown) answers';
                        (otherAnswers, p4) =
                           shuffle_inplace rnd p3 (filter (\<lambda>a. fst a \<noteq> unknown) answers');
                        finalAnswers = (case unknownAnswer of
                                          Some u \<Rightarrow> otherAnswers @ [u]
                                        | None \<Rightarrow> otherAnswers)
                    in Inr \<lparr>baseSentences = baseSentences', answers = map snd finalAnswers\<rparr>)))"

text \<open>
  In api/quiz.ts the call \<^verbatim>\<open>shuffle(terms)\<close> is a statement of its own: the shuffled copy
  is dropped and \<open>terms\<close> stays what it was; only the stream moves on.
\<close>

definition generateQuiz_api :: "Modules \<Rightarrow> Lang \<Rightarrow> random \<Rightarrow> nat \<Rightarrow> error + Answer Quiz" where
  "generateQuiz_api M lang rnd p0 =
     (let (item, p1) = getRandomElement rnd p0 (quizData M);
          t = templates M lang;
          terms = termsMap M lang;
          (dropped, p2) = shuffle rnd p1 terms
      in case item of
           None \<Rightarrow> Inl TypeError
         | Some item \<Rightarrow>
            (let baseSentences' = map (render t terms) (statements item);
                 (correct', p3) = getRandomElement rnd p2 (correct item)
             in case correct' of
                  None \<Rightarrow> Inl TypeError
                | Some correct' \<Rightarrow>
                   (let answers' = typedAnswers t terms correct';
                        unknownAnswer = find (\<lambda>a. fst a = unknown) answers';
                        (otherAnswers, p4) =
                           shuffle rnd p3 (filter (\<lambda>a. fst a \<noteq> unknown) answers');
                        finalAnswers = (case unknownAnswer of
                                          Some u \<Rightarrow> otherAnswers @ [u]
                                        | None \<Rightarrow> otherAnswers)
                    in Inr \<lparr>baseSentences = baseSentences', answers = map snd finalAnswers\<rparr>)))"

section \<open>Multi-answer mode (multi-quiz.ts, generateMultiQuiz)\<close>

text \<open>
  The rejection loop \<^verbatim>\<open>do { item = getRandomElement(quizData.data) } while (!isValid(item))\<close>
  has no bound on its iterations, so it is a partial function: \<open>None\<close> stands for a run
  that never leaves the loop. On an empty library the pick is \<^verbatim>\<open>undefined\<close> and
  \<^verbatim>\<open>isValid\<close> throws when it reads \<^verbatim>\<open>item.correct\<close>.
\<close>

partial_function (option) pickValid ::
  "random \<Rightarrow> QuizItem list \<Rightarrow> nat \<Rightarrow> (error + QuizItem \<times> nat) option" where
  [code]: "pickValid rnd data p =
     (case getRandomElement rnd p data of
        (None, p') \<Rightarrow> Some (Inl TypeError)
      | (Some item, p') \<Rightarrow>
          if isValid item then Some (Inr (item, p')) else pickValid rnd data p')"

text \<open>
  The candidates of one quantifier kind: every ordered pair of distinct variables whose
  key is not the key of a premise (\<^verbatim>\<open>baseKeys\<close>), in the order of the two loops.
\<close>

definition candidates :: "Statement list \<Rightarrow> QuantifierType \<Rightarrow> Conclusion list" where
  "candidates stmts ty =
     (let baseKeys = set (map key stmts)
      in concat (map (\<lambda>s. concat (map (\<lambda>o'.
           if s \<noteq> o'
           then (if key \<lparr>type = ty, subject = s, object = o'\<rparr> \<notin> baseKeys
                 then [\<lparr>type = ty, subject = s, object = o'\<rparr>] else [])
           else []) [X, Y, Z])) [X, Y, Z]))"

text \<open>The predicate inside \<^verbatim>\<open>correctAnswers.some(...)\<close>.\<close>

definition labelCorrect :: "Conclusion list \<Rightarrow> Conclusion \<Rightarrow> bool" where
  "labelCorrect correctAnswers c =
     list_ex (\<lambda>correct'. type correct' = type c \<and>
                ((subject correct' = subject c \<and> object correct' = object c) \<or>
                 (subject correct' = object c \<and> object correct' = subject c \<and>
                  type correct' = some)))
       correctAnswers"

definition possibleAnswers ::
  "(QuantifierType \<Rightarrow> string) \<Rightarrow> string list \<Rightarrow> QuizItem \<Rightarrow> Conclusion list \<Rightarrow> Answer list" where
  "possibleAnswers t terms item correctAnswers =
     concat (map (\<lambda>ty.
       if ty = unknown then []
       else map (\<lambda>c. \<lparr>sentence = fill t ty (mapVarsToTerms terms (subject c))
                                         (mapVarsToTerms terms (object c)),
                      isCorrect = labelCorrect correctAnswers c\<rparr>)
              (candidates (statements item) ty)) allTypes)"

text \<open>\<^verbatim>\<open>findIndex\<close> yields \<open>-1\<close> when nothing matches.\<close>

fun findIndex :: "('a \<Rightarrow> bool) \<Rightarrow> 'a list \<Rightarrow> int" where
  "findIndex P [] = - 1"
| "findIndex P (x # xs) =
     (if P x then 0 else (let r = findIndex P xs in if r < 0 then - 1 else r + 1))"

text \<open>\<^verbatim>\<open>.filter((a, i, arr) => arr.findIndex((b) => b.sentence === a.sentence) === i)\<close>\<close>

definition firstBySentence :: "Answer list \<Rightarrow> Answer list" where
  "firstBySentence arr =
     map fst (filter (\<lambda>(a, i). findIndex (\<lambda>b. sentence b = sentence a) arr = int i)
                (zip arr [0..<length arr]))"

text \<open>
  Lines 144 to 152: the first six answers, and when none of them is correct the last one
  is popped and \<^verbatim>\<open>correct[0]\<close> pushed (\<^verbatim>\<open>undefined\<close> when there is no correct answer at
  all). The closing \<^verbatim>\<open>shuffle(finalAnswers)\<close> returns a shuffled copy that nobody reads.
\<close>

definition ensureCorrect :: "random \<Rightarrow> nat \<Rightarrow> Answer list \<Rightarrow> Answer option list \<times> nat" where
  "ensureCorrect rnd p answers' =
     (let finalAnswers = map Some (take 6 answers')
      in if \<not> list_ex (\<lambda>a. case a of Some a \<Rightarrow> isCorrect a | None \<Rightarrow> False) finalAnswers
         then (let (correct', p1) = shuffle rnd p (filter isCorrect answers');
                   finalAnswers = butlast finalAnswers;
                   finalAnswers = finalAnswers @ [at correct' 0];
                   (dropped, p2) = shuffle rnd p1 finalAnswers
               in (finalAnswers, p2))
         else (finalAnswers, p))"

definition generateMultiQuiz ::
  "Modules \<Rightarrow> Lang \<Rightarrow> random \<Rightarrow> nat \<Rightarrow> (error + Answer option Quiz) option" where
  "generateMultiQuiz M lang rnd p0 =
     (let t = templates M lang;
          (terms, p1) = shuffle rnd p0 (termsMap M lang)
      in case pickValid rnd (quizData M) p1 of
           None \<Rightarrow> None
         | Some (Inl e) \<Rightarrow> Some (Inl e)
         | Some (Inr (item, p2)) \<Rightarrow>
            (let baseSentences' = map (render t terms) (statements item);
                 correctAnswers = expandCorrectAnswers item;
                 (shuffled, p3) = shuffle rnd p2 (possibleAnswers t terms item correctAnswers);
                 answers' = firstBySentence shuffled;
                 (finalAnswers, p4) = ensureCorrect rnd p3 answers'
             in Some (Inr \<lparr>baseSentences = baseSentences', answers = finalAnswers\<rparr>)))"

section \<open>Invariants of the data that is not part of the sources\<close>

text \<open>
  Modelled from the spec: the template library quiz-templates.json is not among the
  sources. Section 3 of the specification and the test suite state its invariants: a
  template has two premises, premises and conclusions relate two different variables,
  a premise is never of kind \<open>unknown\<close>, no canonical conclusion restates a premise, and
  the two premises together speak about all three variables.
\<close>

definition wellFormed :: "QuizItem \<Rightarrow> bool" where
  "wellFormed item \<longleftrightarrow>
     length (statements item) = 2 \<and>
     list_all (\<lambda>s. type s \<noteq> unknown \<and> subject s \<noteq> object s) (statements item) \<and>
     list_all (\<lambda>c. subject c \<noteq> object c \<and> c \<notin> set (statements item)) (correct item) \<and>
     set (map subject (statements item) @ map object (statements item)) = {X, Y, Z}"

text \<open>All triples a candidate can be: the four kinds on the six ordered pairs.\<close>

definition space :: "Conclusion list" where
  "space = concat (map (candidates []) [all, none, some, some_none])"

text \<open>
  Modelled from the spec: the files de.json and en.json are not among the sources. The
  round-trip property of section 8 says that within one request a rendered sentence
  determines its triple: whichever three different vocabulary terms stand for X, Y and
  Z, no two triples of \<^const>\<open>space\<close> render to the same sentence.
\<close>

definition rendersApart :: "(QuantifierType \<Rightarrow> string) \<Rightarrow> string list \<Rightarrow> bool" where
  "rendersApart t vocabulary \<longleftrightarrow>
     list_all (\<lambda>x. list_all (\<lambda>y. list_all (\<lambda>z.
         distinct [x, y, z] \<longrightarrow> distinct (map (render t [x, y, z]) space))
       vocabulary) vocabulary) vocabulary"

section \<open>Templates named in the specification\<close>

text \<open>
  The first template of the library (the test suite pins it down), the Ferio template and
  the converging template of the specification's examples, with X, Y, Z for V1, V2, V3.
\<close>

definition barbara :: QuizItem where
  "barbara = \<lparr>statements = [\<lparr>type = all, subject = X, object = Y\<rparr>,
                            \<lparr>type = all, subject = Y, object = Z\<rparr>],
              correct = [\<lparr>type = all, subject = X, object = Z\<rparr>]\<rparr>"

definition ferio :: QuizItem where
  "ferio = \<lparr>statements = [\<lparr>type = some, subject = X, object = Y\<rparr>,
                          \<lparr>type = none, subject = Y, object = Z\<rparr>],
            correct = [\<lparr>type = some_none, subject = X, object = Z\<rparr>]\<rparr>"

definition converging :: QuizItem where
  "converging = \<lparr>statements = [\<lparr>type = all, subject = Y, object = X\<rparr>,
                               \<lparr>type = all, subject = Z, object = X\<rparr>],
                 correct = [\<lparr>type = unknown, subject = Y, object = Z\<rparr>,
                            \<lparr>type = unknown, subject = Z, object = Y\<rparr>]\<rparr>"

text \<open>
  The specification's own wording of what one premise contributes (section 4.2), kept
  apart from \<^const>\<open>derive\<close>, which is the code.
\<close>

fun spec_contributes :: "Statement \<Rightarrow> Conclusion set" where
  "spec_contributes p =
     (case type p of
        all \<Rightarrow> {\<lparr>type = some, subject = subject p, object = object p\<rparr>,
                \<lparr>type = some, subject = object p, object = subject p\<rparr>}
      | some \<Rightarrow> {\<lparr>type = some, subject = object p, object = subject p\<rparr>}
      | none \<Rightarrow> {\<lparr>type = none, subject = object p, object = subject p\<rparr>}
      | some_none \<Rightarrow> {}
      | unknown \<Rightarrow> {})"

section \<open>Sample data for concrete instances\<close>

text \<open>
  A template without any determinate conclusion, two streams, and a small localisation
  table in the shape the generators expect, used where a statement is read at a concrete
  input.
\<close>

definition undetermined :: QuizItem where
  "undetermined = \<lparr>statements = [\<lparr>type = some_none, subject = X, object = Y\<rparr>,
                                 \<lparr>type = some_none, subject = Y, object = Z\<rparr>],
                   correct = [\<lparr>type = unknown, subject = X, object = Z\<rparr>,
                              \<lparr>type = unknown, subject = Z, object = X\<rparr>]\<rparr>"

definition always :: "nat \<Rightarrow> random" where
  "always n k = n"

definition counting :: random where
  "counting k = k"

fun sample_patterns :: "QuantifierType \<Rightarrow> string" where
  "sample_patterns all = ''All {sub} are {obj}''"
| "sample_patterns none = ''No {sub} are {obj}''"
| "sample_patterns some = ''Some {sub} are {obj}''"
| "sample_patterns some_none = ''Some {sub} are not {obj}''"
| "sample_patterns unknown = ''Nothing follows for {sub} and {obj}''"

definition sample_i18n :: I18n where
  "sample_i18n = \<lparr>terms_json = [''cats'', ''dogs'', ''birds''], templates_json = sample_patterns\<rparr>"

definition sample_modules :: "QuizItem list \<Rightarrow> Modules" where
  "sample_modules library = \<lparr>quizData = library, de_json = sample_i18n, en_json = sample_i18n\<rparr>"

section \<open>Auxiliary notions for the proofs\<close>

text \<open>
  Since the key determines the triple, the map from keys to conclusions behaves like a
  list of conclusions into which a new triple is appended only when it is not there yet.
\<close>

definition entry :: "Conclusion \<Rightarrow> string \<times> Conclusion" where
  "entry c = (key c, c)"

definition ins :: "'a \<Rightarrow> 'a list \<Rightarrow> 'a list" where
  "ins c vs = (if c \<in> set vs then vs else vs @ [c])"

text \<open>One typed answer of the single-answer mode, on the pair of conclusion \<open>c\<close>.\<close>

definition typed ::
  "(QuantifierType \<Rightarrow> string) \<Rightarrow> string list \<Rightarrow> Conclusion \<Rightarrow> QuantifierType \<Rightarrow> QuantifierType \<times> Answer" where
  "typed t terms c ty =
     (ty, \<lparr>sentence = fill t ty (mapVarsToTerms terms (subject c)) (mapVarsToTerms terms (object c)),
           isCorrect = (ty = type c)\<rparr>)"

text \<open>The template that the \<open>p\<close>-th draw takes from a non-empty library.\<close>

definition drawn :: "random \<Rightarrow> QuizItem list \<Rightarrow> nat \<Rightarrow> QuizItem" where
  "drawn rnd data p = data ! randomIndex rnd p (length data)"

text \<open>The candidates of all four kinds, in the order in which the answers are built.\<close>

definition candidateList :: "Statement list \<Rightarrow> Conclusion list" where
  "candidateList stmts = concat (map (candidates stmts) [all, none, some, some_none])"

section \<open>Properties of keys and of the map\<close>

lemma typeStr_inj:
  "typeStr a @ CHR '':'' # r = typeStr b @ CHR '':'' # r' \<Longrightarrow> a = b \<and> r = r'"
  by (cases a; cases b) simp_all

lemma varStr_inj: "varStr a @ r = varStr b @ r' \<Longrightarrow> a = b \<and> r = r'"
  by (cases a; cases b) simp_all

lemma key_inj: "key c = key d \<Longrightarrow> c = d"
proof -
  assume "key c = key d"
  then have "typeStr (type c) @ CHR '':'' # (varStr (subject c) @ ''->'' @ varStr (object c))
           = typeStr (type d) @ CHR '':'' # (varStr (subject d) @ ''->'' @ varStr (object d))"
    by (simp add: key_def)
  from typeStr_inj[OF this] have t: "type c = type d"
    and r: "varStr (subject c) @ ''->'' @ varStr (object c)
          = varStr (subject d) @ ''->'' @ varStr (object d)"
    by simp_all
  from varStr_inj[OF r] have s: "subject c = subject d"
    and r2: "varStr (object c) @ [] = varStr (object d) @ []" by simp_all
  from varStr_inj[OF r2] have "object c = object d" by simp
  with t s show ?thesis by simp
qed

lemma key_eq_iff: "key c = key d \<longleftrightarrow> c = d"
  using key_inj by blast

lemma map_set_entry: "map_set (map entry vs) (key c) c = map entry (ins c vs)"
  by (induction vs) (auto simp: entry_def ins_def key_eq_iff)

lemma fold_map_set:
  "fold (\<lambda>c m. map_set m (key c) c) cs (map entry vs) = map entry (fold ins cs vs)"
  by (induction cs arbitrary: vs) (simp_all add: map_set_entry)

lemma expand_fold: "expandCorrectAnswers item = fold ins (derived item) []"
  using fold_map_set[of "derived item" "[]"]
  by (simp add: expandCorrectAnswers_def unique_def map_values_def comp_def entry_def)

lemma set_fold_ins: "set (fold ins cs vs) = set vs \<union> set cs"
  by (induction cs arbitrary: vs) (auto simp: ins_def)

lemma distinct_fold_ins: "distinct vs \<Longrightarrow> distinct (fold ins cs vs)"
  by (induction cs arbitrary: vs) (auto simp: ins_def)

lemma fold_ins_absorb: "set cs \<subseteq> set vs \<Longrightarrow> fold ins cs vs = vs"
  by (induction cs arbitrary: vs) (auto simp: ins_def)

lemma fold_ins_fresh: "distinct (vs @ cs) \<Longrightarrow> fold ins cs vs = vs @ cs"
  by (induction cs arbitrary: vs) (auto simp: ins_def)

lemma set_expand: "set (expandCorrectAnswers item) = set (derived item)"
  by (simp add: expand_fold set_fold_ins)

lemma distinct_expand: "distinct (expandCorrectAnswers item)"
  by (simp add: expand_fold distinct_fold_ins)

section \<open>Shuffling permutes, picking picks a member\<close>

lemma randomIndex_less: "0 < n \<Longrightarrow> randomIndex rnd p n < n"
  by (simp add: randomIndex_def)

lemma shuffle_loop_mset:
  "i < length a \<Longrightarrow> mset (fst (shuffle_loop rnd i p a)) = mset a"
proof (induction i arbitrary: p a)
  case 0
  then show ?case by simp
next
  case (Suc i)
  let ?j = "randomIndex rnd p (Suc i + 1)"
  have j: "?j < length a"
    using randomIndex_less[of "Suc i + 1" rnd p] Suc.prems by simp
  let ?a = "a[Suc i := a ! ?j, ?j := a ! Suc i]"
  have "mset ?a = mset a"
    using Suc.prems j by (simp add: mset_swap)
  moreover have "i < length ?a" using Suc.prems by simp
  ultimately show ?case
    using Suc.IH[of ?a "Suc p"] by (simp add: Let_def)
qed

lemma shuffle_loop_pos: "snd (shuffle_loop rnd i p a) = p + i"
  by (induction i arbitrary: p a) (simp_all add: Let_def)

lemma shuffle_mset: "mset (fst (shuffle rnd p a)) = mset a"
  by (cases a) (simp_all add: shuffle_def shuffle_loop_mset)

lemma shuffle_pos: "snd (shuffle rnd p a) = p + (length a - 1)"
  by (simp add: shuffle_def shuffle_loop_pos)

lemma shuffle_inplace_eq: "shuffle_inplace rnd p a = shuffle rnd p a"
  by (simp add: shuffle_def shuffle_inplace_def)

lemma shuffle_length: "length (fst (shuffle rnd p a)) = length a"
  using shuffle_mset[of rnd p a] by (metis size_mset)

lemma shuffle_set: "set (fst (shuffle rnd p a)) = set a"
  using shuffle_mset[of rnd p a] by (metis set_mset_mset)

lemma shuffle_split: "shuffle rnd p a = (fst (shuffle rnd p a), p + (length a - 1))"
  using shuffle_pos[of rnd p a] by (metis prod.collapse)

lemma getRandomElement_nonempty:
  "arr \<noteq> [] \<Longrightarrow> getRandomElement rnd p arr = (Some (arr ! randomIndex rnd p (length arr)), Suc p)"
  by (simp add: getRandomElement_def at_def randomIndex_less)

lemma getRandomElement_empty: "getRandomElement rnd p [] = (None, Suc p)"
  by (simp add: getRandomElement_def at_def randomIndex_def)

lemma getRandomElement_mem:
  "fst (getRandomElement rnd p arr) = Some x \<Longrightarrow> x \<in> set arr"
  by (cases "arr = []") (auto simp: getRandomElement_def at_def randomIndex_less split: if_splits)

section \<open>What a single-answer quiz looks like\<close>

lemma typedAnswers_eq: "typedAnswers t terms c = map (typed t terms c) allTypes"
  by (simp add: typedAnswers_def typed_def Let_def)

lemma typed_find: "find (\<lambda>a. fst a = unknown) (typedAnswers t terms c) = Some (typed t terms c unknown)"
  by (simp add: typedAnswers_eq allTypes_def typed_def)

lemma typed_others: "filter (\<lambda>a. fst a \<noteq> unknown) (typedAnswers t terms c)
   = map (typed t terms c) [all, none, some, some_none]"
  by (simp add: typedAnswers_eq allTypes_def typed_def)

lemma component_out:
  assumes "fst (getRandomElement rnd p (quizData M)) = Some item"
    and "fst (getRandomElement rnd (Suc p + (length (termsMap M lang) - 1)) (correct item)) = Some c"
  shows "generateQuiz_component M lang rnd p =
     Inr \<lparr>baseSentences = map (render (templates M lang) (fst (shuffle rnd (Suc p) (termsMap M lang)))) (statements item),
          answers = map snd (fst (shuffle rnd (Suc (Suc p + (length (termsMap M lang) - 1)))
              (map (typed (templates M lang) (fst (shuffle rnd (Suc p) (termsMap M lang))) c) [all, none, some, some_none]))
            @ [typed (templates M lang) (fst (shuffle rnd (Suc p) (termsMap M lang))) c unknown])\<rparr>"
proof -
  define p2 where "p2 = Suc p + (length (termsMap M lang) - 1)"
  define T where "T = fst (shuffle rnd (Suc p) (termsMap M lang))"
  define U where "U = T"
  define S where "S = fst (shuffle rnd (Suc p2) (map (typed (templates M lang) U c) [all, none, some, some_none]))"
  have g1: "getRandomElement rnd p (quizData M) = (Some item, Suc p)"
    using assms(1) by (simp add: getRandomElement_def)
  have g2: "getRandomElement rnd p2 (correct item) = (Some c, Suc p2)"
    using assms(2) unfolding p2_def by (simp add: getRandomElement_def)
  have s1: "shuffle rnd (Suc p) (termsMap M lang) = (T, p2)"
    unfolding T_def p2_def by (rule shuffle_split)
  obtain q where s2: "shuffle rnd (Suc p2) (map (typed (templates M lang) U c) [all, none, some, some_none])
      = (S, q)"
    unfolding S_def by (metis prod.collapse)
  have "generateQuiz_component M lang rnd p =
     Inr \<lparr>baseSentences = map (render (templates M lang) U) (statements item),
          answers = map snd (S @ [typed (templates M lang) U c unknown])\<rparr>"
    using s2 by (simp add: generateQuiz_component_def g1 g2 s1 shuffle_inplace_eq typed_find typed_others U_def Let_def)
  then show ?thesis
    unfolding S_def U_def T_def p2_def by simp
qed

lemma api_out:
  assumes "fst (getRandomElement rnd p (quizData M)) = Some item"
    and "fst (getRandomElement rnd (Suc p + (length (termsMap M lang) - 1)) (correct item)) = Some c"
  shows "generateQuiz_api M lang rnd p =
     Inr \<lparr>baseSentences = map (render (templates M lang) (termsMap M lang)) (statements item),
          answers = map snd (fst (shuffle rnd (Suc (Suc p + (length (termsMap M lang) - 1)))
              (map (typed (templates M lang) (termsMap M lang) c) [all, none, some, some_none]))
            @ [typed (templates M lang) (termsMap M lang) c unknown])\<rparr>"
proof -
  define p2 where "p2 = Suc p + (length (termsMap M lang) - 1)"
  define T where "T = fst (shuffle rnd (Suc p) (termsMap M lang))"
  define U where "U = termsMap M lang"
  define S where "S = fst (shuffle rnd (Suc p2) (map (typed (templates M lang) U c) [all, none, some, some_none]))"
  have g1: "getRandomElement rnd p (quizData M) = (Some item, Suc p)"
    using assms(1) by (simp add: getRandomElement_def)
  have g2: "getRandomElement rnd p2 (correct item) = (Some c, Suc p2)"
    using assms(2) unfolding p2_def by (simp add: getRandomElement_def)
  have s1: "shuffle rnd (Suc p) (termsMap M lang) = (T, p2)"
    unfolding T_def p2_def by (rule shuffle_split)
  obtain q where s2: "shuffle rnd (Suc p2) (map (typed (templates M lang) U c) [all, none, some, some_none])
      = (S, q)"
    unfolding S_def by (metis prod.collapse)
  have "generateQuiz_api M lang rnd p =
     Inr \<lparr>baseSentences = map (render (templates M lang) U) (statements item),
          answers = map snd (S @ [typed (templates M lang) U c unknown])\<rparr>"
    using s2 by (simp add: generateQuiz_api_def g1 g2 s1 shuffle_inplace_eq typed_find typed_others U_def Let_def)
  then show ?thesis
    unfolding S_def U_def T_def p2_def by simp
qed

lemma five_shape:
  assumes "mset sh = mset (map (typed t terms c) [all, none, some, some_none])"
  shows "length (map snd (sh @ [typed t terms c unknown])) = 5"
    and "length (filter isCorrect (map snd (sh @ [typed t terms c unknown]))) = 1"
    and "last (map snd (sh @ [typed t terms c unknown])) = snd (typed t terms c unknown)"
    and "isCorrect (last (map snd (sh @ [typed t terms c unknown]))) \<longleftrightarrow> type c = unknown"
    and "type c \<noteq> unknown \<Longrightarrow> \<exists>i<4. isCorrect (map snd (sh @ [typed t terms c unknown]) ! i)"
proof -
  have len: "length sh = 4"
  proof -
    have "length sh = size (mset sh)" by simp
    also have "\<dots> = 4" unfolding assms by simp
    finally show ?thesis .
  qed
  show "length (map snd (sh @ [typed t terms c unknown])) = 5" using len by simp
  have "length (filter isCorrect (map snd sh)) = size (filter_mset isCorrect (image_mset snd (mset sh)))"
    by (metis mset_filter mset_map size_mset)
  also have "\<dots> = (if type c = unknown then 0 else 1)"
    unfolding assms by (cases "type c") (simp_all add: typed_def)
  finally have cnt: "length (filter isCorrect (map snd sh)) = (if type c = unknown then 0 else 1)" .
  then show "length (filter isCorrect (map snd (sh @ [typed t terms c unknown]))) = 1"
    by (simp add: typed_def)
  show "last (map snd (sh @ [typed t terms c unknown])) = snd (typed t terms c unknown)" by simp
  show "isCorrect (last (map snd (sh @ [typed t terms c unknown]))) \<longleftrightarrow> type c = unknown"
    by (auto simp: typed_def)
  show "\<exists>i<4. isCorrect (map snd (sh @ [typed t terms c unknown]) ! i)" if "type c \<noteq> unknown"
  proof -
    from cnt that have "length (filter isCorrect (map snd sh)) = 1" by presburger
    then have "filter isCorrect (map snd sh) \<noteq> []" by (metis length_0_conv zero_neq_one)
    then obtain a where "a \<in> set (map snd sh)" "isCorrect a"
      by (metis filter_False)
    then obtain i where "i < length (map snd sh)" "map snd sh ! i = a"
      by (metis in_set_conv_nth)
    with len \<open>isCorrect a\<close> show ?thesis
      by (auto simp: nth_append intro!: exI[of _ i])
  qed
qed

section \<open>The expansion is the union the specification describes\<close>

lemma expand_ferio:
  "expandCorrectAnswers ferio
     = [\<lparr>type = some_none, subject = X, object = Z\<rparr>,
        \<lparr>type = some, subject = Y, object = X\<rparr>,
        \<lparr>type = none, subject = Z, object = Y\<rparr>]"
  by (simp add: expand_fold derived_def derive_def ferio_def ins_def)

lemma set_derive: "set (derive p) = spec_contributes p"
  by (cases "type p") (simp_all add: derive_def)

text \<open>
  Claim C1. The expansion of a template consists of its canonical conclusions together
  with what each premise contributes on its own: an \<open>all\<close> premise on (A, B) contributes
  \<open>some\<close> on (A, B) and on (B, A), a \<open>some\<close> premise contributes \<open>some\<close> on (B, A), a
  \<open>none\<close> premise contributes \<open>none\<close> on (B, A), and a \<open>some_none\<close> premise contributes
  nothing. No triple occurs twice in the result. The Barbara template expands to exactly
  the five conclusions all(X, Z), some(X, Y), some(Y, X), some(Y, Z), some(Z, Y).
\<close>

theorem expand_is_union:
  "set (expandCorrectAnswers item)
     = set (correct item) \<union> (\<Union>p \<in> set (statements item). spec_contributes p)
   \<and> distinct (expandCorrectAnswers item)
   \<and> set (expandCorrectAnswers barbara)
     = {\<lparr>type = all, subject = X, object = Z\<rparr>,
        \<lparr>type = some, subject = X, object = Y\<rparr>,
        \<lparr>type = some, subject = Y, object = X\<rparr>,
        \<lparr>type = some, subject = Y, object = Z\<rparr>,
        \<lparr>type = some, subject = Z, object = Y\<rparr>}"
proof -
  have "set (expandCorrectAnswers i)
     = set (correct i) \<union> (\<Union>p \<in> set (statements i). spec_contributes p)" for i
    by (simp add: set_expand derived_def set_derive)
  moreover have "set (correct barbara) \<union> (\<Union>p \<in> set (statements barbara). spec_contributes p)
     = {\<lparr>type = all, subject = X, object = Z\<rparr>,
        \<lparr>type = some, subject = X, object = Y\<rparr>,
        \<lparr>type = some, subject = Y, object = X\<rparr>,
        \<lparr>type = some, subject = Y, object = Z\<rparr>,
        \<lparr>type = some, subject = Z, object = Y\<rparr>}"
    by (auto simp: barbara_def)
  ultimately show ?thesis
    using distinct_expand by simp
qed

text \<open>The same statement read at the Ferio template of the specification.\<close>

theorem expand_is_union_witness:
  "set (expandCorrectAnswers ferio)
     = {\<lparr>type = some_none, subject = X, object = Z\<rparr>,
        \<lparr>type = some, subject = Y, object = X\<rparr>,
        \<lparr>type = none, subject = Z, object = Y\<rparr>}
   \<and> distinct (expandCorrectAnswers ferio)"
  using expand_is_union[of ferio] by (auto simp: ferio_def)

text \<open>
  Claim C9. Expanding is idempotent and free of duplicates: when the canonical list of a
  template is replaced by the template's expansion, the premises staying as they are,
  expanding again gives the same conclusions in the same order, and no triple occurs
  twice in an expansion.
\<close>

theorem expand_idempotent:
  "expandCorrectAnswers (item\<lparr>correct := expandCorrectAnswers item\<rparr>) = expandCorrectAnswers item
   \<and> distinct (expandCorrectAnswers item)"
proof -
  let ?E = "expandCorrectAnswers item"
  let ?D = "concat (map derive (statements item))"
  have sub: "set ?D \<subseteq> set ?E"
    by (auto simp: set_expand derived_def)
  have "expandCorrectAnswers (item\<lparr>correct := ?E\<rparr>) = fold ins ?D (fold ins ?E [])"
    by (simp add: expand_fold[of "item\<lparr>correct := ?E\<rparr>"] derived_def)
  also have "fold ins ?E [] = ?E"
    using fold_ins_fresh[of "[]" ?E] distinct_expand by simp
  also have "fold ins ?D ?E = ?E"
    using sub by (rule fold_ins_absorb)
  finally show ?thesis
    using distinct_expand by simp
qed

theorem expand_idempotent_witness:
  "expandCorrectAnswers (barbara\<lparr>correct := [\<lparr>type = all, subject = X, object = Z\<rparr>,
        \<lparr>type = some, subject = X, object = Y\<rparr>,
        \<lparr>type = some, subject = Y, object = X\<rparr>,
        \<lparr>type = some, subject = Y, object = Z\<rparr>,
        \<lparr>type = some, subject = Z, object = Y\<rparr>]\<rparr>)
   = [\<lparr>type = all, subject = X, object = Z\<rparr>,
        \<lparr>type = some, subject = X, object = Y\<rparr>,
        \<lparr>type = some, subject = Y, object = X\<rparr>,
        \<lparr>type = some, subject = Y, object = Z\<rparr>,
        \<lparr>type = some, subject = Z, object = Y\<rparr>]"
proof -
  have e: "expandCorrectAnswers barbara = [\<lparr>type = all, subject = X, object = Z\<rparr>,
        \<lparr>type = some, subject = X, object = Y\<rparr>,
        \<lparr>type = some, subject = Y, object = X\<rparr>,
        \<lparr>type = some, subject = Y, object = Z\<rparr>,
        \<lparr>type = some, subject = Z, object = Y\<rparr>]"
    by (simp add: expand_fold derived_def derive_def barbara_def ins_def)
  show ?thesis
    using expand_idempotent[of barbara] unfolding e by simp
qed

section \<open>Single-answer mode: five answers, one correct, unknown last\<close>

lemma single_pick:
  assumes "quizData M \<noteq> []" and "\<forall>item \<in> set (quizData M). correct item \<noteq> []"
  obtains item c where "fst (getRandomElement rnd p (quizData M)) = Some item"
    and "fst (getRandomElement rnd q (correct item)) = Some c"
proof -
  let ?item = "quizData M ! randomIndex rnd p (length (quizData M))"
  have 1: "fst (getRandomElement rnd p (quizData M)) = Some ?item"
    using assms(1) by (simp add: getRandomElement_nonempty)
  then have "?item \<in> set (quizData M)" by (rule getRandomElement_mem)
  with assms(2) have "correct ?item \<noteq> []" by blast
  then have "fst (getRandomElement rnd q (correct ?item))
      = Some (correct ?item ! randomIndex rnd q (length (correct ?item)))"
    by (simp add: getRandomElement_nonempty)
  with 1 show ?thesis using that by blast
qed




text \<open>
  Claim C10. Under the same conditions, in both single-answer generators the last answer
  is marked correct exactly when the picked conclusion has kind \<open>unknown\<close>; when it has
  another kind, the one correct answer is at one of the first four positions.
\<close>

theorem unknown_slot_reveals:
  assumes "quizData M \<noteq> []" and "\<forall>item \<in> set (quizData M). correct item \<noteq> []"
  shows "\<exists>item c out out'.
      fst (getRandomElement rnd p (quizData M)) = Some item
    \<and> fst (getRandomElement rnd (Suc p + (length (termsMap M lang) - 1)) (correct item)) = Some c
    \<and> generateQuiz_component M lang rnd p = Inr out
    \<and> (isCorrect (last (answers out)) \<longleftrightarrow> type c = unknown)
    \<and> (type c \<noteq> unknown \<longrightarrow> (\<exists>i<4. isCorrect (answers out ! i)))
    \<and> length (filter isCorrect (answers out)) = 1
    \<and> generateQuiz_api M lang rnd p = Inr out'
    \<and> (isCorrect (last (answers out')) \<longleftrightarrow> type c = unknown)
    \<and> (type c \<noteq> unknown \<longrightarrow> (\<exists>i<4. isCorrect (answers out' ! i)))
    \<and> length (filter isCorrect (answers out')) = 1"
proof -
  let ?p2 = "Suc p + (length (termsMap M lang) - 1)"
  let ?t = "templates M lang"
  let ?T = "fst (shuffle rnd (Suc p) (termsMap M lang))"
  from assms obtain item c
    where i: "fst (getRandomElement rnd p (quizData M)) = Some item"
      and c: "fst (getRandomElement rnd ?p2 (correct item)) = Some c"
    by (rule single_pick)
  let ?four = "\<lambda>U. map (typed ?t U c) [all, none, some, some_none]"
  have m: "mset (fst (shuffle rnd (Suc ?p2) (?four U))) = mset (?four U)" for U
    by (rule shuffle_mset)
  note A = five_shape[OF m[of ?T]]
  note B = five_shape[OF m[of "termsMap M lang"]]
  define out where "out = \<lparr>baseSentences = map (render ?t ?T) (statements item),
      answers = map snd (fst (shuffle rnd (Suc ?p2) (?four ?T)) @ [typed ?t ?T c unknown])\<rparr>"
  define out' where "out' = \<lparr>baseSentences = map (render ?t (termsMap M lang)) (statements item),
      answers = map snd (fst (shuffle rnd (Suc ?p2) (?four (termsMap M lang)))
                  @ [typed ?t (termsMap M lang) c unknown])\<rparr>"
  have o: "generateQuiz_component M lang rnd p = Inr out"
    unfolding out_def by (rule component_out[OF i c])
  have o': "generateQuiz_api M lang rnd p = Inr out'"
    unfolding out'_def by (rule api_out[OF i c])
  have "isCorrect (last (answers out)) \<longleftrightarrow> type c = unknown"
    "type c \<noteq> unknown \<longrightarrow> (\<exists>i<4. isCorrect (answers out ! i))"
    "length (filter isCorrect (answers out)) = 1"
    using A(2,4,5) by (simp_all add: out_def)
  moreover have "isCorrect (last (answers out')) \<longleftrightarrow> type c = unknown"
    "type c \<noteq> unknown \<longrightarrow> (\<exists>i<4. isCorrect (answers out' ! i))"
    "length (filter isCorrect (answers out')) = 1"
    using B(2,4,5) by (simp_all add: out'_def)
  ultimately show ?thesis
    using i c o o' by blast
qed

text \<open>The statement at a two-template library, German, a stream that always draws 1.\<close>

theorem unknown_slot_reveals_witness:
  "\<exists>item c out out'.
      fst (getRandomElement (always 1) 0 (quizData (sample_modules [barbara, converging]))) = Some item
    \<and> fst (getRandomElement (always 1) (Suc 0 + (length (termsMap (sample_modules [barbara, converging]) de) - 1)) (correct item)) = Some c
    \<and> generateQuiz_component (sample_modules [barbara, converging]) de (always 1) 0 = Inr out
    \<and> (isCorrect (last (answers out)) \<longleftrightarrow> type c = unknown)
    \<and> (type c \<noteq> unknown \<longrightarrow> (\<exists>i<4. isCorrect (answers out ! i)))
    \<and> length (filter isCorrect (answers out)) = 1
    \<and> generateQuiz_api (sample_modules [barbara, converging]) de (always 1) 0 = Inr out'
    \<and> (isCorrect (last (answers out')) \<longleftrightarrow> type c = unknown)
    \<and> (type c \<noteq> unknown \<longrightarrow> (\<exists>i<4. isCorrect (answers out' ! i)))
    \<and> length (filter isCorrect (answers out')) = 1"
  by (rule unknown_slot_reveals) (simp_all add: sample_modules_def barbara_def converging_def)

section \<open>The API route does not shuffle the vocabulary\<close>

text \<open>
  Claim C6. The claim is that every generator assigns the first three entries of the
  shuffled vocabulary to X, Y and Z. The API route of the single-answer mode drops the
  shuffled copy: whatever the stream, its premise sentences are rendered with the first
  three entries of the vocabulary as it is stored.
\<close>

theorem api_terms_unshuffled:
  assumes "fst (getRandomElement rnd p (quizData M)) = Some item" and "correct item \<noteq> []"
  shows "\<exists>out. generateQuiz_api M lang rnd p = Inr out
    \<and> baseSentences out = map (render (templates M lang) (termsMap M lang)) (statements item)"
proof -
  have "fst (getRandomElement rnd (Suc p + (length (termsMap M lang) - 1)) (correct item))
      = Some (correct item ! randomIndex rnd (Suc p + (length (termsMap M lang) - 1)) (length (correct item)))"
    using assms(2) by (simp add: getRandomElement_nonempty)
  from api_out[OF assms(1) this] show ?thesis by simp
qed

text \<open>
  At the Barbara template and a stream that always draws 0 the API route says
  "cats, dogs, birds" in the stored order, while the component, which shuffles in
  place, rotates the vocabulary.
\<close>

theorem api_terms_unshuffled_witness:
  "\<exists>out. generateQuiz_api (sample_modules [barbara]) en (always 0) 0 = Inr out
    \<and> baseSentences out = [''All cats are dogs'', ''All dogs are birds'']"
proof -
  have 1: "fst (getRandomElement (always 0) 0 (quizData (sample_modules [barbara]))) = Some barbara"
    by (simp add: getRandomElement_def at_def randomIndex_def sample_modules_def)
  have 2: "correct barbara \<noteq> []"
    by (simp add: barbara_def)
  have 3: "map (render (templates (sample_modules [barbara]) en)
                  (termsMap (sample_modules [barbara]) en)) (statements barbara)
      = [''All cats are dogs'', ''All dogs are birds'']"
    by code_simp
  show ?thesis
    using api_terms_unshuffled[OF 1 2, of en] unfolding 3 .
qed

lemma component_terms_shuffled:
  "generateQuiz_component (sample_modules [barbara]) en (always 0) 0
     = Inr \<lparr>baseSentences = [''All dogs are birds'', ''All birds are cats''],
            answers =
              [\<lparr>sentence = ''No dogs are cats'', isCorrect = False\<rparr>,
               \<lparr>sentence = ''Some dogs are cats'', isCorrect = False\<rparr>,
               \<lparr>sentence = ''Some dogs are not cats'', isCorrect = False\<rparr>,
               \<lparr>sentence = ''All dogs are cats'', isCorrect = True\<rparr>,
               \<lparr>sentence = ''Nothing follows for dogs and cats'', isCorrect = False\<rparr>]\<rparr>"
  by code_simp

section \<open>Multi-answer mode: candidates and labels\<close>

lemma candidates_iff:
  "c \<in> set (candidates stmts ty) \<longleftrightarrow> type c = ty \<and> subject c \<noteq> object c \<and> c \<notin> set stmts"
proof -
  have k: "key d \<in> key ` set stmts \<longleftrightarrow> d \<in> set stmts" for d
    by (auto simp: key_eq_iff)
  show ?thesis
    by (cases c; cases "subject c"; cases "object c") (auto simp: candidates_def k)
qed

lemma candidates_type: "c \<in> set (candidates stmts ty) \<Longrightarrow> type c = ty"
  by (simp add: candidates_iff)

lemma Conclusion_eq_iff:
  "d = c \<longleftrightarrow> type d = type c \<and> subject d = subject c \<and> object d = object c"
  for c d :: Conclusion
  by (cases c; cases d) simp

lemma labelCorrect_iff:
  "labelCorrect E c \<longleftrightarrow>
     c \<in> set E \<or> (type c = some \<and> \<lparr>type = some, subject = object c, object = subject c\<rparr> \<in> set E)"
proof
  assume "labelCorrect E c"
  then obtain d where d: "d \<in> set E" "type d = type c"
    and alt: "(subject d = subject c \<and> object d = object c) \<or>
              (subject d = object c \<and> object d = subject c \<and> type d = some)"
    unfolding labelCorrect_def list_ex_iff by blast
  from alt show "c \<in> set E \<or> (type c = some \<and> \<lparr>type = some, subject = object c, object = subject c\<rparr> \<in> set E)"
  proof
    assume "subject d = subject c \<and> object d = object c"
    with d have "d = c" by (simp add: Conclusion_eq_iff)
    with d show ?thesis by simp
  next
    assume r: "subject d = object c \<and> object d = subject c \<and> type d = some"
    with d have "d = \<lparr>type = some, subject = object c, object = subject c\<rparr>"
      by (simp add: Conclusion_eq_iff)
    with d r show ?thesis by auto
  qed
next
  assume "c \<in> set E \<or> (type c = some \<and> \<lparr>type = some, subject = object c, object = subject c\<rparr> \<in> set E)"
  then show "labelCorrect E c"
  proof
    assume "c \<in> set E"
    then show ?thesis
      unfolding labelCorrect_def list_ex_iff by (intro bexI[of _ c]) simp_all
  next
    assume "type c = some \<and> \<lparr>type = some, subject = object c, object = subject c\<rparr> \<in> set E"
    then show ?thesis
      unfolding labelCorrect_def list_ex_iff
      by (intro bexI[of _ "\<lparr>type = some, subject = object c, object = subject c\<rparr>"]) simp_all
  qed
qed

lemma possibleAnswers_eq:
  "possibleAnswers t terms item E =
     map (\<lambda>c. \<lparr>sentence = render t terms c, isCorrect = labelCorrect E c\<rparr>)
       (concat (map (candidates (statements item)) [all, none, some, some_none]))"
  by (simp add: possibleAnswers_def allTypes_def render_def candidates_type cong: map_cong)

text \<open>
  Claim C5. In multi-answer mode the answers are built from the candidates of the four
  kinds other than \<open>unknown\<close>, and a candidate is marked correct exactly when its triple
  is in the expansion, or its kind is \<open>some\<close> and the reversed triple of kind \<open>some\<close> is
  in the expansion. The reversed reading is not applied to any other kind, in particular
  not to \<open>none\<close>: with none(X, Z) in the expansion the candidate none(Z, X) is not marked.
\<close>

theorem label_rule:
  "possibleAnswers t terms item E =
     map (\<lambda>c. \<lparr>sentence = render t terms c,
               isCorrect = (c \<in> set E \<or>
                 (type c = some \<and>
                  \<lparr>type = some, subject = object c, object = subject c\<rparr> \<in> set E))\<rparr>)
       (concat (map (candidates (statements item)) [all, none, some, some_none]))
   \<and> (type c \<noteq> some \<longrightarrow> (labelCorrect E c \<longleftrightarrow> c \<in> set E))
   \<and> labelCorrect [\<lparr>type = some, subject = X, object = Z\<rparr>] \<lparr>type = some, subject = Z, object = X\<rparr>
   \<and> \<not> labelCorrect [\<lparr>type = none, subject = X, object = Z\<rparr>] \<lparr>type = none, subject = Z, object = X\<rparr>"
  by (simp add: possibleAnswers_eq labelCorrect_iff)

theorem label_rule_witness:
  "map isCorrect (possibleAnswers sample_patterns [''cats'', ''dogs'', ''birds''] ferio
       (expandCorrectAnswers ferio))
     = map (\<lambda>c. c \<in> set (expandCorrectAnswers ferio) \<or>
                 (type c = some \<and>
                  \<lparr>type = some, subject = object c, object = subject c\<rparr>
                    \<in> set (expandCorrectAnswers ferio)))
         (concat (map (candidates (statements ferio)) [all, none, some, some_none]))
   \<and> labelCorrect (expandCorrectAnswers ferio) \<lparr>type = none, subject = Z, object = Y\<rparr>
   \<and> \<not> labelCorrect (expandCorrectAnswers ferio) \<lparr>type = all, subject = Z, object = Y\<rparr>"
  using label_rule[of sample_patterns "[''cats'', ''dogs'', ''birds'']" ferio "expandCorrectAnswers ferio"
      "\<lparr>type = none, subject = Z, object = Y\<rparr>"]
    label_rule[of sample_patterns "[''cats'', ''dogs'', ''birds'']" ferio "expandCorrectAnswers ferio"
      "\<lparr>type = all, subject = Z, object = Y\<rparr>"]
  by (simp add: comp_def expand_ferio)

section \<open>The rejection loop\<close>

lemma pickValid_empty: "pickValid rnd [] p = Some (Inl TypeError)"
  by (subst pickValid.simps) (simp add: getRandomElement_empty)

lemma pickValid_step:
  "data \<noteq> [] \<Longrightarrow> pickValid rnd data p =
     (if isValid (drawn rnd data p) then Some (Inr (drawn rnd data p, Suc p))
      else pickValid rnd data (Suc p))"
  by (subst pickValid.simps) (simp add: getRandomElement_nonempty drawn_def)

lemma pickValid_found:
  assumes "data \<noteq> []" and "isValid (drawn rnd data (p + k))"
    and "\<forall>i<k. \<not> isValid (drawn rnd data (p + i))"
  shows "pickValid rnd data p = Some (Inr (drawn rnd data (p + k), Suc (p + k)))"
  using assms(2,3)
proof (induction k arbitrary: p)
  case 0
  then show ?case using assms(1) by (simp add: pickValid_step)
next
  case (Suc k)
  have "\<not> isValid (drawn rnd data p)" using Suc.prems(2) by force
  then have "pickValid rnd data p = pickValid rnd data (Suc p)"
    using assms(1) by (simp add: pickValid_step)
  moreover have "pickValid rnd data (Suc p) = Some (Inr (drawn rnd data (Suc p + k), Suc (Suc p + k)))"
  proof (rule Suc.IH)
    show "isValid (drawn rnd data (Suc p + k))" using Suc.prems(1) by simp
    show "\<forall>i<k. \<not> isValid (drawn rnd data (Suc p + i))"
      using Suc.prems(2) by (metis Suc_less_eq add_Suc_shift)
  qed
  ultimately show ?case by simp
qed

lemma pickValid_eventually:
  assumes "data \<noteq> []" and "isValid (drawn rnd data (p + k))"
  obtains j where "j \<le> k" "isValid (drawn rnd data (p + j))"
    "pickValid rnd data p = Some (Inr (drawn rnd data (p + j), Suc (p + j)))"
proof -
  define j where "j = (LEAST j. isValid (drawn rnd data (p + j)))"
  have v: "isValid (drawn rnd data (p + j))"
    unfolding j_def using assms(2) by (rule LeastI)
  have le: "j \<le> k" unfolding j_def using assms(2) by (rule Least_le)
  have "\<forall>i<j. \<not> isValid (drawn rnd data (p + i))"
    unfolding j_def using not_less_Least by blast
  from pickValid_found[OF assms(1) v this] v le show ?thesis using that by blast
qed

lemma pickValid_Some:
  assumes "pickValid rnd data p = Some r"
  shows "data = [] \<or> (\<exists>k. isValid (drawn rnd data (p + k)))"
proof (rule pickValid.raw_induct[where
      P = "\<lambda>rnd data p r. data = [] \<or> (\<exists>k. isValid (drawn rnd data (p + k)))"
      and rnd = rnd and data = data and p = p and y = r])
  show "pickValid rnd data p = Some r" by fact
next
  fix f :: "random \<Rightarrow> QuizItem list \<Rightarrow> nat \<Rightarrow> (error + QuizItem \<times> nat) option"
    and rnd data p r
  assume IH: "\<And>rnd data p y. f rnd data p = Some y \<Longrightarrow>
                data = [] \<or> (\<exists>k. isValid (drawn rnd data (p + k)))"
    and eq: "(case getRandomElement rnd p data of
                (None, p') \<Rightarrow> Some (Inl TypeError)
              | (Some item, p') \<Rightarrow>
                  if isValid item then Some (Inr (item, p')) else f rnd data p') = Some r"
  show "data = [] \<or> (\<exists>k. isValid (drawn rnd data (p + k)))"
  proof (cases "data = []")
    case True
    then show ?thesis by simp
  next
    case False
    show ?thesis
    proof (cases "isValid (drawn rnd data p)")
      case True
      then have "isValid (drawn rnd data (p + 0))" by simp
      then show ?thesis by blast
    next
      case invalid: False
      with False eq have "f rnd data (Suc p) = Some r"
        by (simp add: getRandomElement_nonempty drawn_def)
      from IH[OF this] False obtain k where "isValid (drawn rnd data (Suc p + k))" by blast
      then have "isValid (drawn rnd data (p + Suc k))" by simp
      then show ?thesis by blast
    qed
  qed
qed

lemma pickValid_None_iff:
  "pickValid rnd data p = None \<longleftrightarrow> data \<noteq> [] \<and> (\<forall>k. \<not> isValid (drawn rnd data (p + k)))"
proof
  assume n: "pickValid rnd data p = None"
  have ne: "data \<noteq> []" using n pickValid_empty by force
  have "\<not> isValid (drawn rnd data (p + k))" for k
  proof
    assume "isValid (drawn rnd data (p + k))"
    from pickValid_eventually[OF ne this] obtain r where "pickValid rnd data p = Some r"
      by metis
    with n show False by simp
  qed
  with ne show "data \<noteq> [] \<and> (\<forall>k. \<not> isValid (drawn rnd data (p + k)))" by blast
next
  assume a: "data \<noteq> [] \<and> (\<forall>k. \<not> isValid (drawn rnd data (p + k)))"
  show "pickValid rnd data p = None"
  proof (cases "pickValid rnd data p")
    case None
    then show ?thesis .
  next
    case (Some r)
    from pickValid_Some[OF this] a show ?thesis by blast
  qed
qed


section \<open>Multi-answer mode: what is delivered\<close>

lemma set_space: "set space = {c. type c \<noteq> unknown \<and> subject c \<noteq> object c}"
proof -
  have "c \<in> set space \<longleftrightarrow> type c \<noteq> unknown \<and> subject c \<noteq> object c" for c
    by (cases "type c") (auto simp: space_def candidates_iff)
  then show ?thesis by blast
qed

lemma candidates_filter: "candidates stmts ty = filter (\<lambda>c. c \<notin> set stmts) (candidates [] ty)"
proof -
  have k: "key d \<in> key ` set stmts \<longleftrightarrow> d \<in> set stmts" for d
    by (auto simp: key_eq_iff)
  show ?thesis by (simp add: candidates_def k)
qed

lemma candidateList_filter: "candidateList stmts = filter (\<lambda>c. c \<notin> set stmts) space"
  by (simp add: candidateList_def space_def candidates_filter[of stmts])

lemma set_candidateList:
  "set (candidateList stmts) = {c. type c \<noteq> unknown \<and> subject c \<noteq> object c \<and> c \<notin> set stmts}"
  by (auto simp: candidateList_filter set_space)

lemma cover_apart:
  assumes "{s1, s2, o1, o2} = {X, Y, Z}" and "s1 \<noteq> o1" and "s2 \<noteq> o2"
  shows "\<not> (s1 = s2 \<and> o1 = o2)" and "\<not> (s1 = o2 \<and> o1 = s2)"
  using assms by (cases s1; cases o1; auto)+

lemma contributed_is_candidate:
  assumes wf: "wellFormed item" and p: "p \<in> set (statements item)" and e: "e \<in> spec_contributes p"
  shows "e \<in> set (candidateList (statements item))"
proof -
  from wf have "length (statements item) = Suc (Suc 0)"
    by (simp add: wellFormed_def)
  then obtain p1 p2 where st: "statements item = [p1, p2]"
    by (auto simp: length_Suc_conv)
  from wf st have d: "subject p1 \<noteq> object p1" "subject p2 \<noteq> object p2"
    and cov: "{subject p1, subject p2, object p1, object p2} = {X, Y, Z}"
    by (simp_all add: wellFormed_def)
  note ap = cover_apart[OF cov d]
  have ap': "\<not> (subject p2 = subject p1 \<and> object p2 = object p1)" "\<not> (subject p2 = object p1 \<and> object p2 = subject p1)"
    using ap by auto
  from p st have "p = p1 \<or> p = p2" by simp
  then show ?thesis
  proof
    assume "p = p1"
    with e d ap show ?thesis
      by (cases "type p1") (auto simp: set_candidateList st Conclusion_eq_iff)
  next
    assume "p = p2"
    with e d ap' show ?thesis
      by (cases "type p2") (auto simp: set_candidateList st Conclusion_eq_iff)
  qed
qed

lemma valid_has_correct_candidate:
  assumes wf: "wellFormed item" and v: "isValid item"
  shows "\<exists>c \<in> set (candidateList (statements item)). labelCorrect (expandCorrectAnswers item) c"
proof -
  let ?E = "expandCorrectAnswers item"
  from v obtain e where e: "e \<in> set ?E" "type e \<noteq> unknown"
    unfolding isValid_def Let_def list_all_iff by blast
  have lab: "labelCorrect ?E e" using e(1) by (simp add: labelCorrect_iff)
  from e(1) have "e \<in> set (correct item) \<or> (\<exists>p \<in> set (statements item). e \<in> spec_contributes p)"
    by (auto simp: set_expand derived_def set_derive)
  then have "e \<in> set (candidateList (statements item))"
  proof
    assume "e \<in> set (correct item)"
    with wf have "subject e \<noteq> object e \<and> e \<notin> set (statements item)"
      unfolding wellFormed_def list_all_iff by blast
    with e(2) show ?thesis by (simp add: set_candidateList)
  next
    assume "\<exists>p \<in> set (statements item). e \<in> spec_contributes p"
    then show ?thesis using contributed_is_candidate[OF wf] by blast
  qed
  with lab show ?thesis by blast
qed

lemma findIndex_first:
  "i < length xs \<Longrightarrow> P (xs ! i) \<Longrightarrow> (\<forall>j<i. \<not> P (xs ! j)) \<Longrightarrow> findIndex P xs = int i"
proof (induction xs arbitrary: i)
  case Nil
  then show ?case by simp
next
  case (Cons x xs)
  show ?case
  proof (cases i)
    case 0
    with Cons.prems show ?thesis by simp
  next
    case (Suc k)
    with Cons.prems have nx: "\<not> P x" by auto
    have "findIndex P xs = int k"
    proof (rule Cons.IH)
      show "k < length xs" using Cons.prems(1) Suc by simp
      show "P (xs ! k)" using Cons.prems(2) Suc by simp
      show "\<forall>j<k. \<not> P (xs ! j)" using Cons.prems(3) Suc by auto
    qed
    with nx Suc show ?thesis by (simp add: Let_def)
  qed
qed

lemma firstBySentence_distinct:
  assumes "distinct (map sentence arr)"
  shows "firstBySentence arr = arr"
proof -
  have "findIndex (\<lambda>b. sentence b = sentence a) arr = int i"
    if "(a, i) \<in> set (zip arr [0..<length arr])" for a i
  proof -
    from that have i: "i < length arr" and a: "a = arr ! i"
      by (auto simp: set_zip)
    have "\<forall>j<i. sentence (arr ! j) \<noteq> sentence (arr ! i)"
      using assms i by (auto simp: distinct_conv_nth)
    with i a show ?thesis by (intro findIndex_first) simp_all
  qed
  then have "filter (\<lambda>(a, i). findIndex (\<lambda>b. sentence b = sentence a) arr = int i)
               (zip arr [0..<length arr]) = zip arr [0..<length arr]"
    by (intro filter_True) auto
  then show ?thesis by (simp add: firstBySentence_def)
qed

lemma ensureCorrect_fst:
  "fst (ensureCorrect rnd p answers') =
     (if list_ex isCorrect (take 6 answers') then map Some (take 6 answers')
      else butlast (map Some (take 6 answers'))
             @ [at (fst (shuffle rnd p (filter isCorrect answers'))) 0])"
proof -
  have ex: "list_ex (case_option False isCorrect) (map Some xs) = list_ex isCorrect xs" for xs
    by (simp add: list_ex_iff)
  show ?thesis
    by (simp add: ensureCorrect_def Let_def split_beta ex)
qed

lemma ensureCorrect_props:
  assumes "\<exists>a \<in> set answers'. isCorrect a"
  shows "1 \<le> length (fst (ensureCorrect rnd p answers'))"
    and "length (fst (ensureCorrect rnd p answers')) \<le> 6"
    and "\<exists>a. Some a \<in> set (fst (ensureCorrect rnd p answers')) \<and> isCorrect a"
    and "set (fst (ensureCorrect rnd p answers')) \<subseteq> Some ` set answers'"
proof -
  let ?six = "take 6 answers'"
  let ?c = "fst (shuffle rnd p (filter isCorrect answers'))"
  from assms have ne: "answers' \<noteq> []" by auto
  from assms have "filter isCorrect answers' \<noteq> []"
    by (simp add: filter_empty_conv)
  then have "length ?c \<noteq> 0" by (simp add: shuffle_length)
  then have c0: "at ?c 0 = Some (?c ! 0)" "?c ! 0 \<in> set ?c"
    by (simp_all add: at_def)
  from c0(2) have c0': "isCorrect (?c ! 0)" "?c ! 0 \<in> set answers'"
    by (simp_all add: shuffle_set)
  show "1 \<le> length (fst (ensureCorrect rnd p answers'))"
    using ne by (cases answers') (simp_all add: ensureCorrect_fst)
  show "length (fst (ensureCorrect rnd p answers')) \<le> 6"
    by (auto simp: ensureCorrect_fst)
  show "\<exists>a. Some a \<in> set (fst (ensureCorrect rnd p answers')) \<and> isCorrect a"
  proof (cases "list_ex isCorrect ?six")
    case True
    then show ?thesis by (auto simp: ensureCorrect_fst list_ex_iff)
  next
    case False
    then show ?thesis using c0 c0' by (auto simp: ensureCorrect_fst)
  qed
  show "set (fst (ensureCorrect rnd p answers')) \<subseteq> Some ` set answers'"
  proof (cases "list_ex isCorrect ?six")
    case True
    then show ?thesis by (auto simp: ensureCorrect_fst dest: in_set_takeD)
  next
    case False
    have "set (butlast (map Some ?six)) \<subseteq> Some ` set answers'"
      by (auto dest!: in_set_butlastD in_set_takeD)
    with False show ?thesis using c0 c0' by (auto simp: ensureCorrect_fst)
  qed
qed

lemma render_first_three:
  "3 \<le> length terms \<Longrightarrow> render t terms c = render t [terms ! 0, terms ! 1, terms ! 2] c"
  by (cases "subject c"; cases "object c") (auto simp: render_def mapVarsToTerms_def at_def)

lemma multi_quiz_None:
  "generateMultiQuiz M lang rnd p = None \<longleftrightarrow>
     pickValid rnd (quizData M) (p + (length (termsMap M lang) - 1)) = None"
proof -
  define T where "T = fst (shuffle rnd p (termsMap M lang))"
  define p1 where "p1 = p + (length (termsMap M lang) - 1)"
  have s1: "shuffle rnd p (termsMap M lang) = (T, p1)"
    unfolding T_def p1_def by (rule shuffle_split)
  have "generateMultiQuiz M lang rnd p = None \<longleftrightarrow> pickValid rnd (quizData M) p1 = None"
    by (auto simp: generateMultiQuiz_def Let_def s1 split_beta split: option.splits sum.splits)
  then show ?thesis unfolding p1_def .
qed

lemma multi_quiz_error:
  assumes "pickValid rnd (quizData M) (p + (length (termsMap M lang) - 1)) = Some (Inl e)"
  shows "generateMultiQuiz M lang rnd p = Some (Inl e)"
proof -
  define T where "T = fst (shuffle rnd p (termsMap M lang))"
  define p1 where "p1 = p + (length (termsMap M lang) - 1)"
  have s1: "shuffle rnd p (termsMap M lang) = (T, p1)"
    unfolding T_def p1_def by (rule shuffle_split)
  have pv: "pickValid rnd (quizData M) p1 = Some (Inl e)"
    using assms unfolding p1_def .
  show ?thesis
    by (simp add: generateMultiQuiz_def Let_def s1 pv)
qed

lemma multi_quiz_out:
  assumes "pickValid rnd (quizData M) (p + (length (termsMap M lang) - 1)) = Some (Inr (item, p2))"
  shows "\<exists>p3. generateMultiQuiz M lang rnd p =
     Some (Inr \<lparr>baseSentences =
                  map (render (templates M lang) (fst (shuffle rnd p (termsMap M lang))))
                    (statements item),
                answers = fst (ensureCorrect rnd p3 (firstBySentence (fst (shuffle rnd p2
                    (possibleAnswers (templates M lang) (fst (shuffle rnd p (termsMap M lang)))
                       item (expandCorrectAnswers item))))))\<rparr>)"
proof -
  define T where "T = fst (shuffle rnd p (termsMap M lang))"
  define p1 where "p1 = p + (length (termsMap M lang) - 1)"
  have s1: "shuffle rnd p (termsMap M lang) = (T, p1)"
    unfolding T_def p1_def by (rule shuffle_split)
  define S where "S = fst (shuffle rnd p2
      (possibleAnswers (templates M lang) T item (expandCorrectAnswers item)))"
  obtain p3 where s2: "shuffle rnd p2
      (possibleAnswers (templates M lang) T item (expandCorrectAnswers item)) = (S, p3)"
    unfolding S_def by (metis prod.collapse)
  have pv: "pickValid rnd (quizData M) p1 = Some (Inr (item, p2))"
    using assms unfolding p1_def .
  have "generateMultiQuiz M lang rnd p =
     Some (Inr \<lparr>baseSentences = map (render (templates M lang) T) (statements item),
                answers = fst (ensureCorrect rnd p3 (firstBySentence S))\<rparr>)"
    by (simp add: generateMultiQuiz_def Let_def s1 pv s2 split_beta)
  then show ?thesis unfolding S_def T_def by blast
qed

text \<open>
  Claim C3. Let the library be non-empty and its templates well formed, let the
  vocabulary of the language hold at least three different terms, and let the
  language render different triples to different sentences. Then for either language
  and every random stream that at some draw of the rejection loop hits a template
  accepted by \<^const>\<open>isValid\<close>, the multi-answer generator returns a quiz with at least
  one and at most six answers, none of them undefined, at least one of them marked
  correct. The premise sentences of the quiz are the rendered premises of the template
  with which the rejection loop ends, every answer is a candidate of that template
  rendered and marked by the labelling rule against its expansion, and no answer has
  the sentence of one of these premises.
\<close>

theorem multi_answer_shape:
  assumes ne: "quizData M \<noteq> []"
    and wf: "\<forall>item \<in> set (quizData M). wellFormed item"
    and len: "3 \<le> length (termsMap M lang)"
    and dist: "distinct (termsMap M lang)"
    and apart: "rendersApart (templates M lang) (termsMap M lang)"
    and draw: "isValid (drawn rnd (quizData M) (p + (length (termsMap M lang) - 1) + k))"
  shows "\<exists>item p2 out.
       pickValid rnd (quizData M) (p + (length (termsMap M lang) - 1)) = Some (Inr (item, p2))
     \<and> item \<in> set (quizData M) \<and> isValid item
     \<and> generateMultiQuiz M lang rnd p = Some (Inr out)
     \<and> baseSentences out
          = map (render (templates M lang) (fst (shuffle rnd p (termsMap M lang))))
              (statements item)
     \<and> 1 \<le> length (answers out) \<and> length (answers out) \<le> 6
     \<and> None \<notin> set (answers out)
     \<and> (\<exists>a. Some a \<in> set (answers out) \<and> isCorrect a)
     \<and> (\<forall>a. Some a \<in> set (answers out) \<longrightarrow>
            (\<exists>c \<in> set (candidateList (statements item)).
               a = \<lparr>sentence = render (templates M lang)
                                   (fst (shuffle rnd p (termsMap M lang))) c,
                      isCorrect = labelCorrect (expandCorrectAnswers item) c\<rparr>))
     \<and> (\<forall>a. Some a \<in> set (answers out) \<longrightarrow> sentence a \<notin> set (baseSentences out))
     \<and> (\<forall>a s. Some a \<in> set (answers out) \<and> s \<in> set (statements item) \<longrightarrow>
            sentence a \<noteq> render (templates M lang)
                                 (fst (shuffle rnd p (termsMap M lang))) s)"
proof -
  let ?t = "templates M lang"
  let ?voc = "termsMap M lang"
  define T where "T = fst (shuffle rnd p ?voc)"
  \<comment> \<open>the template the loop leaves with\<close>
  from pickValid_eventually[OF ne draw] obtain j
    where v: "isValid (drawn rnd (quizData M) (p + (length ?voc - 1) + j))"
      and pv: "pickValid rnd (quizData M) (p + (length ?voc - 1))
          = Some (Inr (drawn rnd (quizData M) (p + (length ?voc - 1) + j),
                       Suc (p + (length ?voc - 1) + j)))"
    by blast
  define item where "item = drawn rnd (quizData M) (p + (length ?voc - 1) + j)"
  have "item \<in> set (quizData M)"
    unfolding item_def drawn_def using ne by (simp add: randomIndex_less)
  with wf have wfi: "wellFormed item" by blast
  have vi: "isValid item" using v by (simp add: item_def)
  let ?E = "expandCorrectAnswers item"
  let ?C = "candidateList (statements item)"
  \<comment> \<open>the three terms\<close>
  have mT: "mset T = mset ?voc" unfolding T_def by (rule shuffle_mset)
  then have lT: "3 \<le> length T" using len by (metis size_mset)
  have dT: "distinct T" using mT dist by (metis mset_eq_imp_distinct_iff)
  have sT: "set T = set ?voc" using mT by (metis set_mset_mset)
  have idx: "0 < length T" "1 < length T" "2 < length T" using lT by linarith+
  have mem: "T ! 0 \<in> set ?voc" "T ! 1 \<in> set ?voc" "T ! 2 \<in> set ?voc"
    using idx[THEN nth_mem] sT by simp_all
  have "T ! 0 \<noteq> T ! 1" "T ! 0 \<noteq> T ! 2" "T ! 1 \<noteq> T ! 2"
    using idx nth_eq_iff_index_eq[OF dT] by simp_all
  then have d3: "distinct [T ! 0, T ! 1, T ! 2]" by simp
  from apart mem d3 have "distinct (map (render ?t [T ! 0, T ! 1, T ! 2]) space)"
    unfolding rendersApart_def list_all_iff by blast
  moreover have "render ?t T = render ?t [T ! 0, T ! 1, T ! 2]"
    by (rule ext) (rule render_first_three[OF lT])
  ultimately have dS: "distinct (map (render ?t T) space)" by metis
  then have inj: "inj_on (render ?t T) (set space)" by (simp add: distinct_map)
  \<comment> \<open>the candidates and the answers\<close>
  define possible where "possible = possibleAnswers ?t T item ?E"
  have poss: "possible = map (\<lambda>c. \<lparr>sentence = render ?t T c, isCorrect = labelCorrect ?E c\<rparr>) ?C"
    unfolding possible_def candidateList_def by (rule possibleAnswers_eq)
  have "map sentence possible = map (render ?t T) ?C"
    by (simp add: poss comp_def)
  then have dP: "distinct (map sentence possible)"
    using dS by (simp add: candidateList_filter distinct_map_filter)
  from multi_quiz_out[OF pv] obtain p3 where
    out: "generateMultiQuiz M lang rnd p =
      Some (Inr \<lparr>baseSentences = map (render ?t T) (statements item),
                 answers = fst (ensureCorrect rnd p3 (firstBySentence
                    (fst (shuffle rnd (Suc (p + (length ?voc - 1) + j)) possible))))\<rparr>)"
    unfolding T_def possible_def item_def by blast
  define S where "S = fst (shuffle rnd (Suc (p + (length ?voc - 1) + j)) possible)"
  have mS: "mset S = mset possible" unfolding S_def by (rule shuffle_mset)
  then have "mset (map sentence S) = mset (map sentence possible)" by simp
  then have "distinct (map sentence S)"
    using dP by (metis mset_eq_imp_distinct_iff)
  then have fS: "firstBySentence S = S" by (rule firstBySentence_distinct)
  have setS: "set S = set possible" using mS by (metis set_mset_mset)
  from valid_has_correct_candidate[OF wfi vi] obtain c
    where "c \<in> set ?C" "labelCorrect ?E c" by blast
  then have "\<lparr>sentence = render ?t T c, isCorrect = labelCorrect ?E c\<rparr> \<in> set possible"
    "isCorrect \<lparr>sentence = render ?t T c, isCorrect = labelCorrect ?E c\<rparr>"
    by (simp_all add: poss)
  then have ex: "\<exists>a \<in> set S. isCorrect a" using setS by blast
  note props = ensureCorrect_props[OF ex, of rnd p3]
  define final where "final = fst (ensureCorrect rnd p3 S)"
  have sub: "set final \<subseteq> Some ` set possible"
    using props(4) setS by (simp add: final_def)
  have no_premise: "sentence a \<notin> set (map (render ?t T) (statements item))"
    if "Some a \<in> set final" for a
  proof
    assume "sentence a \<in> set (map (render ?t T) (statements item))"
    then obtain s where s: "s \<in> set (statements item)" "sentence a = render ?t T s" by auto
    from that sub have "a \<in> set possible" by auto
    then obtain c where c: "c \<in> set ?C" "sentence a = render ?t T c"
      by (auto simp: poss)
    from c(1) have cs: "c \<in> set space" "c \<notin> set (statements item)"
      by (simp_all add: candidateList_filter)
    from wfi s(1) have "s \<in> set space"
      unfolding wellFormed_def list_all_iff set_space by blast
    with inj cs(1) s(2) c(2) have "c = s" by (auto dest: inj_onD)
    with cs(2) s(1) show False by simp
  qed
  have none: "None \<notin> set final" using sub by auto
  have cand: "\<exists>c \<in> set ?C. a = \<lparr>sentence = render ?t T c, isCorrect = labelCorrect ?E c\<rparr>"
    if "Some a \<in> set final" for a
  proof -
    from that sub have "a \<in> set possible" by auto
    then show ?thesis by (auto simp: poss)
  qed
  have each: "sentence a \<noteq> render ?t T s"
    if "Some a \<in> set final \<and> s \<in> set (statements item)" for a s
    using no_premise[of a] that by auto
  define out' where
    "out' = \<lparr>baseSentences = map (render ?t T) (statements item), answers = final\<rparr>"
  have o: "generateMultiQuiz M lang rnd p = Some (Inr out')"
    unfolding out fS S_def[symmetric] final_def[symmetric] out'_def ..
  have b: "baseSentences out' = map (render ?t T) (statements item)"
    and a: "answers out' = final"
    by (simp_all add: out'_def)
  have pv': "pickValid rnd (quizData M) (p + (length ?voc - 1))
      = Some (Inr (item, Suc (p + (length ?voc - 1) + j)))"
    using pv unfolding item_def .
  have l: "1 \<le> length (answers out')" "length (answers out') \<le> 6"
    and e: "\<exists>a. Some a \<in> set (answers out') \<and> isCorrect a"
    using props(1,2,3) unfolding a final_def by blast+
  have n: "None \<notin> set (answers out')" using none unfolding a .
  have c: "\<forall>a. Some a \<in> set (answers out') \<longrightarrow>
            (\<exists>c \<in> set ?C. a = \<lparr>sentence = render ?t T c, isCorrect = labelCorrect ?E c\<rparr>)"
    using cand unfolding a by blast
  have np: "\<forall>a. Some a \<in> set (answers out') \<longrightarrow> sentence a \<notin> set (baseSentences out')"
    using no_premise unfolding a b by blast
  have ea: "\<forall>a s. Some a \<in> set (answers out') \<and> s \<in> set (statements item) \<longrightarrow>
            sentence a \<noteq> render ?t T s"
    using each unfolding a by blast
  show ?thesis
    unfolding T_def[symmetric]
    using pv' \<open>item \<in> set (quizData M)\<close> vi o b l n e c np ea by blast
qed


text \<open>
  The statement at a library of two templates, of which the counting stream first draws
  the one that is rejected.
\<close>

theorem multi_answer_shape_witness:
  "\<exists>item p2 out.
       pickValid counting (quizData (sample_modules [undetermined, barbara]))
         (0 + (length (termsMap (sample_modules [undetermined, barbara]) en) - 1))
         = Some (Inr (item, p2))
     \<and> item \<in> set (quizData (sample_modules [undetermined, barbara])) \<and> isValid item
     \<and> generateMultiQuiz (sample_modules [undetermined, barbara]) en counting 0 = Some (Inr out)
     \<and> baseSentences out
          = map (render (templates (sample_modules [undetermined, barbara]) en)
                   (fst (shuffle counting 0 (termsMap (sample_modules [undetermined, barbara]) en))))
              (statements item)
     \<and> 1 \<le> length (answers out) \<and> length (answers out) \<le> 6
     \<and> None \<notin> set (answers out)
     \<and> (\<exists>a. Some a \<in> set (answers out) \<and> isCorrect a)
     \<and> (\<forall>a. Some a \<in> set (answers out) \<longrightarrow>
            (\<exists>c \<in> set (candidateList (statements item)).
               a = \<lparr>sentence = render (templates (sample_modules [undetermined, barbara]) en)
                                   (fst (shuffle counting 0
                                      (termsMap (sample_modules [undetermined, barbara]) en))) c,
                      isCorrect = labelCorrect (expandCorrectAnswers item) c\<rparr>))
     \<and> (\<forall>a. Some a \<in> set (answers out) \<longrightarrow> sentence a \<notin> set (baseSentences out))
     \<and> (\<forall>a s. Some a \<in> set (answers out) \<and> s \<in> set (statements item) \<longrightarrow>
            sentence a \<noteq> render (templates (sample_modules [undetermined, barbara]) en)
                                 (fst (shuffle counting 0
                                    (termsMap (sample_modules [undetermined, barbara]) en))) s)"
proof (rule multi_answer_shape[where k = 1])
  show "quizData (sample_modules [undetermined, barbara]) \<noteq> []"
    by (simp add: sample_modules_def)
  have "list_all wellFormed [undetermined, barbara]" by code_simp
  then show "\<forall>item \<in> set (quizData (sample_modules [undetermined, barbara])). wellFormed item"
    by (simp add: sample_modules_def)
  show "3 \<le> length (termsMap (sample_modules [undetermined, barbara]) en)"
    by (simp add: sample_modules_def termsMap_def sample_i18n_def)
  show "distinct (termsMap (sample_modules [undetermined, barbara]) en)"
    by (simp add: sample_modules_def termsMap_def sample_i18n_def)
  show "rendersApart (templates (sample_modules [undetermined, barbara]) en)
          (termsMap (sample_modules [undetermined, barbara]) en)"
    by code_simp
  show "isValid (drawn counting (quizData (sample_modules [undetermined, barbara]))
          (0 + (length (termsMap (sample_modules [undetermined, barbara]) en) - 1) + 1))"
    by code_simp
qed

section \<open>The rejection loop has no bound\<close>

text \<open>
  Claim C8, as the code has it. The claim speaks of a bounded number of retries and of a
  fatal error once they are used up. The loop of the code has no bound: the generator
  returns exactly when the library is empty (then with a \<^verbatim>\<open>TypeError\<close>) or when the
  stream at some draw hits a template accepted by \<^const>\<open>isValid\<close>. On a non-empty
  library without such a template it never returns, whatever the stream, and reports
  no error.
\<close>

theorem multi_quiz_returns_iff:
  "(generateMultiQuiz M lang rnd p \<noteq> None \<longleftrightarrow>
      quizData M = [] \<or>
      (\<exists>k. isValid (drawn rnd (quizData M) (p + (length (termsMap M lang) - 1) + k))))
   \<and> (quizData M = [] \<longrightarrow> generateMultiQuiz M lang rnd p = Some (Inl TypeError))
   \<and> (quizData M \<noteq> [] \<and> (\<forall>item \<in> set (quizData M). \<not> isValid item) \<longrightarrow>
        generateMultiQuiz M lang rnd p = None)"
proof (intro conjI impI)
  show iff: "generateMultiQuiz M lang rnd p \<noteq> None \<longleftrightarrow>
      quizData M = [] \<or>
      (\<exists>k. isValid (drawn rnd (quizData M) (p + (length (termsMap M lang) - 1) + k)))"
    by (auto simp: multi_quiz_None pickValid_None_iff)
  show "generateMultiQuiz M lang rnd p = Some (Inl TypeError)" if "quizData M = []"
    using that by (intro multi_quiz_error) (simp add: pickValid_empty)
  show "generateMultiQuiz M lang rnd p = None"
    if a: "quizData M \<noteq> [] \<and> (\<forall>item \<in> set (quizData M). \<not> isValid item)"
  proof -
    have "drawn rnd (quizData M) q \<in> set (quizData M)" for q
      unfolding drawn_def using a by (simp add: randomIndex_less)
    with a have "\<not> isValid (drawn rnd (quizData M) q)" for q by blast
    with a iff show ?thesis by blast
  qed
qed

lemma undetermined_invalid: "\<not> isValid undetermined"
  by code_simp


text \<open>
  On a library that holds only a template without determinate conclusion the generator
  does not return: there is neither a quiz nor an error.
\<close>

theorem multi_quiz_never_returns:
  "generateMultiQuiz (sample_modules [undetermined]) en counting 0 = None"
proof -
  have "drawn counting [undetermined] q = undetermined" for q
    by (simp add: drawn_def randomIndex_def)
  then show ?thesis
    by (simp add: multi_quiz_None pickValid_None_iff sample_modules_def undetermined_invalid)
qed

text \<open>The three cases of the statement at concrete libraries.\<close>

theorem multi_quiz_returns_iff_witness:
  "generateMultiQuiz (sample_modules [undetermined, barbara]) en counting 0 \<noteq> None
   \<and> generateMultiQuiz (sample_modules []) en counting 0 = Some (Inl TypeError)
   \<and> generateMultiQuiz (sample_modules [undetermined]) en (always 0) 0 = None"
proof -
  have v: "isValid (drawn counting (quizData (sample_modules [undetermined, barbara]))
          (0 + (length (termsMap (sample_modules [undetermined, barbara]) en) - 1) + 1))"
    by code_simp
  have 1: "generateMultiQuiz (sample_modules [undetermined, barbara]) en counting 0 \<noteq> None"
    using multi_quiz_returns_iff[of "sample_modules [undetermined, barbara]" en counting 0] v
    by blast
  have 2: "generateMultiQuiz (sample_modules []) en counting 0 = Some (Inl TypeError)"
    using multi_quiz_returns_iff[of "sample_modules []" en counting 0]
    by (simp add: sample_modules_def)
  have 3: "generateMultiQuiz (sample_modules [undetermined]) en (always 0) 0 = None"
    using multi_quiz_returns_iff[of "sample_modules [undetermined]" en "always 0" 0]
    by (simp add: sample_modules_def undetermined_invalid)
  from 1 2 3 show ?thesis by blast
qed

section \<open>Which templates the multi-answer mode accepts\<close>

lemma converging_valid: "isValid converging"
  by code_simp

text \<open>
  Claim C4, as the code has it. \<^const>\<open>isValid\<close> holds exactly when the expansion is
  non-empty and not all of its entries are of kind \<open>unknown\<close>. The expansion of the
  converging template contains the \<open>some\<close> conclusions that its two \<open>all\<close> premises
  contribute, so the template is accepted: whenever the first draw of the loop takes it,
  the multi-answer quiz is built from its premises and its expansion.
\<close>

theorem converging_is_accepted:
  "(isValid item \<longleftrightarrow>
      expandCorrectAnswers item \<noteq> [] \<and> \<not> (\<forall>c \<in> set (expandCorrectAnswers item). type c = unknown))
   \<and> isValid converging
   \<and> (quizData M \<noteq> [] \<and>
      drawn rnd (quizData M) (p + (length (termsMap M lang) - 1)) = converging \<longrightarrow>
      (\<exists>p2 p3. generateMultiQuiz M lang rnd p =
         Some (Inr \<lparr>baseSentences =
                      map (render (templates M lang) (fst (shuffle rnd p (termsMap M lang))))
                        (statements converging),
                    answers = fst (ensureCorrect rnd p3 (firstBySentence (fst (shuffle rnd p2
                        (possibleAnswers (templates M lang) (fst (shuffle rnd p (termsMap M lang)))
                           converging (expandCorrectAnswers converging))))))\<rparr>)))"
proof (intro conjI impI)
  show "isValid item \<longleftrightarrow>
      expandCorrectAnswers item \<noteq> [] \<and> \<not> (\<forall>c \<in> set (expandCorrectAnswers item). type c = unknown)"
    by (simp add: isValid_def Let_def list_all_iff)
  show "isValid converging" by (rule converging_valid)
  assume a: "quizData M \<noteq> [] \<and>
      drawn rnd (quizData M) (p + (length (termsMap M lang) - 1)) = converging"
  then have "pickValid rnd (quizData M) (p + (length (termsMap M lang) - 1))
      = Some (Inr (converging, Suc (p + (length (termsMap M lang) - 1))))"
    by (simp add: pickValid_step converging_valid)
  from multi_quiz_out[OF this] show "\<exists>p2 p3. generateMultiQuiz M lang rnd p =
         Some (Inr \<lparr>baseSentences =
                      map (render (templates M lang) (fst (shuffle rnd p (termsMap M lang))))
                        (statements converging),
                    answers = fst (ensureCorrect rnd p3 (firstBySentence (fst (shuffle rnd p2
                        (possibleAnswers (templates M lang) (fst (shuffle rnd p (termsMap M lang)))
                           converging (expandCorrectAnswers converging))))))\<rparr>)"
    by blast
qed

text \<open>
  A stream that always draws 1 takes the converging template from a library of two, and
  the quiz shows its premises.
\<close>

theorem converging_not_rejected:
  "pickValid (always 1) [barbara, converging] 2 = Some (Inr (converging, 3))
   \<and> generateMultiQuiz (sample_modules [barbara, converging]) en (always 1) 0 =
     Some (Inr \<lparr>baseSentences = [''All birds are cats'', ''All dogs are cats''],
                answers =
                  [Some \<lparr>sentence = ''All cats are birds'', isCorrect = False\<rparr>,
                   Some \<lparr>sentence = ''All birds are dogs'', isCorrect = False\<rparr>,
                   Some \<lparr>sentence = ''All dogs are birds'', isCorrect = False\<rparr>,
                   Some \<lparr>sentence = ''No cats are birds'', isCorrect = False\<rparr>,
                   Some \<lparr>sentence = ''No cats are dogs'', isCorrect = False\<rparr>,
                   Some \<lparr>sentence = ''Some cats are birds'', isCorrect = True\<rparr>]\<rparr>)"
  by code_simp

text \<open>The statement at the same library and stream.\<close>

theorem converging_is_accepted_witness:
  "isValid converging
   \<and> (\<exists>p2 p3. generateMultiQuiz (sample_modules [barbara, converging]) en (always 1) 0 =
         Some (Inr \<lparr>baseSentences =
                      map (render (templates (sample_modules [barbara, converging]) en)
                             (fst (shuffle (always 1) 0 (termsMap (sample_modules [barbara, converging]) en))))
                        (statements converging),
                    answers = fst (ensureCorrect (always 1) p3 (firstBySentence (fst (shuffle (always 1) p2
                        (possibleAnswers (templates (sample_modules [barbara, converging]) en)
                           (fst (shuffle (always 1) 0 (termsMap (sample_modules [barbara, converging]) en)))
                           converging (expandCorrectAnswers converging))))))\<rparr>))"
proof -
  have "drawn (always 1) (quizData (sample_modules [barbara, converging]))
          (0 + (length (termsMap (sample_modules [barbara, converging]) en) - 1)) = converging"
    by (simp add: drawn_def randomIndex_def always_def sample_modules_def)
  moreover have "quizData (sample_modules [barbara, converging]) \<noteq> []"
    by (simp add: sample_modules_def)
  ultimately show ?thesis
    using converging_is_accepted[of barbara "sample_modules [barbara, converging]" "always 1" 0 en]
    by blast
qed

section \<open>The repaired answer list is not reshuffled\<close>

text \<open>
  Claim C7. The claim is that after the repair the six answers are shuffled again, so
  that the answer put in can be anywhere. In the code the closing shuffle works on a
  copy that is dropped: whenever none of the first six answers is correct, the delivered
  list is the first five of them followed by the answer put in, for every random stream.
\<close>

theorem repair_leaves_correct_last:
  assumes "\<not> list_ex isCorrect (take 6 answers')"
  shows "fst (ensureCorrect rnd p answers') =
     butlast (map Some (take 6 answers'))
       @ [at (fst (shuffle rnd p (filter isCorrect answers'))) 0]"
  using assms by (simp add: ensureCorrect_fst)

text \<open>The statement at eight answers of which only the last two are correct.\<close>

theorem repair_leaves_correct_last_witness:
  "fst (ensureCorrect counting 0
     [\<lparr>sentence = ''All birds are dogs'', isCorrect = False\<rparr>,
      \<lparr>sentence = ''All cats are dogs'', isCorrect = False\<rparr>,
      \<lparr>sentence = ''All cats are birds'', isCorrect = False\<rparr>,
      \<lparr>sentence = ''No dogs are birds'', isCorrect = False\<rparr>,
      \<lparr>sentence = ''No dogs are cats'', isCorrect = False\<rparr>,
      \<lparr>sentence = ''No birds are dogs'', isCorrect = False\<rparr>,
      \<lparr>sentence = ''Some dogs are birds'', isCorrect = True\<rparr>,
      \<lparr>sentence = ''All dogs are cats'', isCorrect = True\<rparr>])
   = [Some \<lparr>sentence = ''All birds are dogs'', isCorrect = False\<rparr>,
      Some \<lparr>sentence = ''All cats are dogs'', isCorrect = False\<rparr>,
      Some \<lparr>sentence = ''All cats are birds'', isCorrect = False\<rparr>,
      Some \<lparr>sentence = ''No dogs are birds'', isCorrect = False\<rparr>,
      Some \<lparr>sentence = ''No dogs are cats'', isCorrect = False\<rparr>,
      Some \<lparr>sentence = ''All dogs are cats'', isCorrect = True\<rparr>]"
  by (subst repair_leaves_correct_last)
     (simp_all add: shuffle_def randomIndex_def counting_def at_def)

text \<open>
  The whole generator at the Barbara template and a stream that always draws 0: the
  repair runs and the one correct answer is the last of six.
\<close>

lemma multi_quiz_repair_example:
  "generateMultiQuiz (sample_modules [barbara]) en (always 0) 0 = Some
  (Inr \<lparr>baseSentences = [''All dogs are birds'', ''All birds are cats''],
          answers =
            [Some \<lparr>sentence = ''All birds are dogs'', isCorrect = False\<rparr>,
             Some \<lparr>sentence = ''All cats are dogs'', isCorrect = False\<rparr>,
             Some \<lparr>sentence = ''All cats are birds'', isCorrect = False\<rparr>,
             Some \<lparr>sentence = ''No dogs are birds'', isCorrect = False\<rparr>,
             Some \<lparr>sentence = ''No dogs are cats'', isCorrect = False\<rparr>,
             Some \<lparr>sentence = ''Some birds are dogs'', isCorrect = True\<rparr>]\<rparr>)"
  by code_simp


end
